theory Spec2Isabelle
  imports Complex_Main "HOL-Library.Word" "HOL-Library.Log_Nat"
begin

section \<open>Python values and exceptions\<close>

text \<open>
  The exceptions that occur in \<^verbatim>\<open>orchestrator.py\<close>. Every constructor stands for an
  instance of Python's \<^verbatim>\<open>Exception\<close>, which is what the three handlers of the source
  (\<^verbatim>\<open>except Exception\<close>) catch; the argument is \<^verbatim>\<open>str(e)\<close>. Errors of the capture
  device and of the transcription model are values of the same type. Signals of the
  interpreter that are not instances of \<^verbatim>\<open>Exception\<close> (a keyboard interrupt, an exit
  request) are not behaviours of the device or of the model and are outside the model.
\<close>

datatype error =
    ValueError string
  | KeyError string
  | TypeError string
  | AttributeError string
  | OSError string
  | RuntimeError string
  | OverflowError string

fun str_of :: "error \<Rightarrow> string" where
  "str_of (ValueError m) = m"
| "str_of (KeyError m) = m"
| "str_of (TypeError m) = m"
| "str_of (AttributeError m) = m"
| "str_of (OSError m) = m"
| "str_of (RuntimeError m) = m"
| "str_of (OverflowError m) = m"

text \<open>
  What the transcription model may hand back. The real model returns a dictionary with a
  string under the key \<^verbatim>\<open>"text"\<close>; a mock may return anything, so the other shapes a
  value can have are kept, with the exceptions that \<^verbatim>\<open>result["text"]\<close> and
  \<^verbatim>\<open>.strip()\<close> raise on them.
\<close>

datatype pyval =
    PyNone
  | PyInt int
  | PyStr string
  | PyDict "(string \<times> pyval) list"

fun getitem :: "pyval \<Rightarrow> string \<Rightarrow> error + pyval" where
  "getitem (PyDict kvs) k =
     (case map_of kvs k of
        None \<Rightarrow> Inl (KeyError ([CHR 0x27] @ k @ [CHR 0x27]))
      | Some v \<Rightarrow> Inr v)"
| "getitem (PyStr s) k = Inl (TypeError ''string indices must be integers'')"
| "getitem (PyInt i) k = Inl (TypeError ''int object is not subscriptable'')"
| "getitem PyNone k = Inl (TypeError ''NoneType object is not subscriptable'')"

text \<open>
  \<^verbatim>\<open>str.strip()\<close> with no argument removes leading and trailing whitespace. A
  \<open>string\<close> here is a list of bytes, so the whitespace is the ASCII part of what Python
  strips: tab, line feed, vertical tab, form feed, carriage return, the four separators
  28 to 31, and the space.
\<close>

definition isspace :: "char \<Rightarrow> bool" where
  "isspace c = (let n = of_char c :: nat in (9 \<le> n \<and> n \<le> 13) \<or> (28 \<le> n \<and> n \<le> 32))"

definition strip :: "string \<Rightarrow> string" where
  "strip s = rev (dropWhile isspace (rev (dropWhile isspace s)))"

fun strip_method :: "pyval \<Rightarrow> error + string" where
  "strip_method (PyStr s) = Inr (strip s)"
| "strip_method (PyDict kvs) = Inl (AttributeError ''dict object has no attribute strip'')"
| "strip_method (PyInt i) = Inl (AttributeError ''int object has no attribute strip'')"
| "strip_method PyNone = Inl (AttributeError ''NoneType object has no attribute strip'')"

section \<open>Python floats\<close>

text \<open>
  A Python float is an IEEE 754 double: a significand of 53 bits, a binary exponent from
  -1022 to 1023, and below that the subnormal numbers, whose spacing is fixed. A finite
  float is modelled by its value, a real number. An operation on floats returns the exact
  result rounded to the nearest double, a tie going to the double with the even
  significand.

  \<open>float_exponent x\<close> is the exponent \<open>e\<close> with \<open>2 ^ e \<le> |x| < 2 ^ (e + 1)\<close>, and
  \<open>ulp_exponent x\<close> the exponent of the spacing of the doubles around \<open>x\<close>.
\<close>

definition round_half_even :: "real \<Rightarrow> int" where
  "round_half_even y =
     (let n = \<lfloor>y\<rfloor>; r = y - of_int n in
      if r < 1 / 2 then n else if 1 / 2 < r then n + 1 else if even n then n else n + 1)"

definition float_exponent :: "real \<Rightarrow> int" where
  "float_exponent x =
     (if 1 \<le> \<bar>x\<bar> then bitlen \<lfloor>\<bar>x\<bar>\<rfloor> - 1 else - bitlen (\<lceil>1 / \<bar>x\<bar>\<rceil> - 1))"

definition ulp_exponent :: "real \<Rightarrow> int" where
  "ulp_exponent x = max (float_exponent x) (- 1022) - 52"

definition round_double :: "real \<Rightarrow> real" where
  "round_double x =
     of_int (round_half_even (x / 2 powi ulp_exponent x)) * 2 powi ulp_exponent x"

text \<open>
  A rounded value of magnitude \<open>2 ^ 1024\<close> or more is not a finite double: as the result of
  an operation on floats it is an infinity, and an \<^verbatim>\<open>int\<close> that rounds to it cannot be
  converted to a float.
\<close>

definition overflows :: "real \<Rightarrow> bool" where
  "overflows r \<longleftrightarrow> 2 ^ 1024 \<le> \<bar>r\<bar>"

text \<open>The values of the finite floats; an \<^verbatim>\<open>int\<close> with such a value converts exactly.\<close>

definition is_float :: "real \<Rightarrow> bool" where
  "is_float d \<longleftrightarrow> round_double d = d \<and> \<not> overflows d"

text \<open>A decimal literal such as \<^verbatim>\<open>0.1\<close> denotes the double nearest to it.\<close>

definition float_literal :: "real \<Rightarrow> real" where
  "float_literal x = round_double x"

section \<open>The external collaborators\<close>

text \<open>
  The capture device and the transcription model are opaque. Their behaviour is an
  environment: what the k-th call of \<^verbatim>\<open>audio.open\<close> and of \<^verbatim>\<open>stream.read\<close> does
  (raise, or return a stream handle, respectively a buffer of bytes), what the k-th call
  of \<^verbatim>\<open>model.transcribe\<close> does with the arguments it is given, whether the three
  teardown calls raise, and whether the two calls of the constructor,
  \<^verbatim>\<open>pyaudio.PyAudio()\<close> and \<^verbatim>\<open>whisper.load_model(model_size)\<close>, raise. Any behaviour of
  the collaborators is some environment.
\<close>

type_synonym handle = nat

record transcribe_args =
  audio :: "real list"
  fp16 :: bool
  language :: string
  initial_prompt :: string

record env =
  open_outcome :: "nat \<Rightarrow> error + handle"
  read_outcome :: "nat \<Rightarrow> error + 8 word list"
  transcribe_outcome :: "nat \<Rightarrow> transcribe_args \<Rightarrow> error + pyval"
  stop_stream_outcome :: "error option"
  close_outcome :: "error option"
  terminate_outcome :: "error option"
  pyaudio_outcome :: "error option"
  load_model_outcome :: "string \<Rightarrow> error option"

datatype dev_call = Stop_stream | Close_stream | Terminate

section \<open>WhisperRecognizer\<close>

text \<open>
  The fields of a recognizer that change or are configured (\<open>RECORD_SECONDS\<close>,
  \<open>stream\<close>), together with the record of what it has done to its collaborators: the
  number of \<^verbatim>\<open>audio.open\<close> and \<^verbatim>\<open>stream.read\<close> calls, the handles that were opened,
  the arguments of every \<^verbatim>\<open>model.transcribe\<close> call, the teardown calls, and the lines
  printed on standard output.

  \<open>RECORD_SECONDS\<close> holds the number that was passed as \<^verbatim>\<open>record_seconds\<close>, an
  \<^verbatim>\<open>int\<close> or a finite float, by its value.
\<close>

record world =
  RECORD_SECONDS :: real
  stream :: "handle option"
  open_calls :: nat
  opened :: "handle list"
  read_calls :: nat
  model_calls :: "transcribe_args list"
  teardown_calls :: "dev_call list"
  stdout :: "string list"

definition CHANNELS :: nat where "CHANNELS = 1"
definition RATE :: nat where "RATE = 16000"
definition CHUNK :: nat where "CHUNK = 1024"

text \<open>The recognizer that \<^verbatim>\<open>__init__\<close> leaves when it returns.\<close>

definition WhisperRecognizer_init :: "string \<Rightarrow> real \<Rightarrow> world" where
  "WhisperRecognizer_init model_size record_seconds =
     \<lparr> RECORD_SECONDS = record_seconds,
       stream = None,
       open_calls = 0,
       opened = [],
       read_calls = 0,
       model_calls = [],
       teardown_calls = [],
       stdout = [''Loading Whisper '' @ model_size @ '' model...''] \<rparr>"

text \<open>\<^verbatim>\<open>int(x)\<close> on a float truncates towards zero.\<close>

definition py_int :: "real \<Rightarrow> int" where
  "py_int x = (if 0 \<le> x then \<lfloor>x\<rfloor> else \<lceil>x\<rceil>)"

text \<open>
  \<^verbatim>\<open>int(self.RATE / self.CHUNK * self.RECORD_SECONDS)\<close>, the stop value of the loop's
  range. \<^verbatim>\<open>RATE / CHUNK\<close> is the true division of two \<^verbatim>\<open>int\<close>s, a float. The other
  operand of the product is converted to a float if it is an \<^verbatim>\<open>int\<close> (a float is its
  own conversion), which raises when the \<^verbatim>\<open>int\<close> is too large. The product is a float
  product, and \<^verbatim>\<open>int\<close> raises on an infinite one.
\<close>

definition range_stop :: "real \<Rightarrow> error + int" where
  "range_stop D =
     (let d = round_double D in
      if overflows d then Inl (OverflowError ''int too large to convert to float'')
      else
        (let x = round_double (round_double (real RATE / real CHUNK) * d) in
         if overflows x then Inl (OverflowError ''cannot convert float infinity to integer'')
         else Inr (py_int x)))"

text \<open>
  The number of iterations the loop makes: the stop value, none when it is negative, and
  none when computing it raises.
\<close>

definition num_chunks :: "real \<Rightarrow> nat" where
  "num_chunks D = (case range_stop D of Inl ex \<Rightarrow> 0 | Inr stop \<Rightarrow> nat stop)"

text \<open>
  \<^verbatim>\<open>np.frombuffer(data, dtype=np.int16)\<close>: two bytes per sample, low byte first; a
  buffer of odd length is refused.
\<close>

fun decode_int16 :: "8 word list \<Rightarrow> 16 word list" where
  "decode_int16 (lo # hi # bs) = word_of_nat (unat lo + 256 * unat hi) # decode_int16 bs"
| "decode_int16 bs = []"

definition frombuffer :: "8 word list \<Rightarrow> error + 16 word list" where
  "frombuffer data =
     (if length data mod 2 \<noteq> 0
      then Inl (ValueError ''buffer size must be a multiple of element size'')
      else Inr (decode_int16 data))"

text \<open>\<^verbatim>\<open>np.concatenate\<close> refuses an empty list of arrays.\<close>

definition concatenate :: "16 word list list \<Rightarrow> error + 16 word list" where
  "concatenate frames =
     (if frames = [] then Inl (ValueError ''need at least one array to concatenate'')
      else Inr (concat frames))"

text \<open>
  \<^verbatim>\<open>.astype(np.float32) / 32768.0\<close>: a 16-bit value divided by a power of two is exact
  in single precision, so the quotient is the real number itself.
\<close>

definition normalize :: "16 word list \<Rightarrow> real list" where
  "normalize samples = map (\<lambda>s. real_of_int (sint s) / 32768) samples"

text \<open>The lazy opening of the stream at the head of \<^verbatim>\<open>_record_audio\<close>.\<close>

definition open_stream :: "env \<Rightarrow> world \<Rightarrow> (error + unit) \<times> world" where
  "open_stream e w =
     (case stream w of
        Some h \<Rightarrow> (Inr (), w)
      | None \<Rightarrow>
          (case open_outcome e (open_calls w) of
             Inl ex \<Rightarrow> (Inl ex, w\<lparr>open_calls := Suc (open_calls w)\<rparr>)
           | Inr h \<Rightarrow>
               (Inr (), w\<lparr>open_calls := Suc (open_calls w),
                          opened := opened w @ [h],
                          stream := Some h\<rparr>)))"

text \<open>
  One iteration of the loop: read a chunk and decode it; an exception of either step is
  printed and the chunk is skipped.
\<close>

definition read_chunk :: "env \<Rightarrow> 16 word list list \<Rightarrow> world \<Rightarrow> 16 word list list \<times> world" where
  "read_chunk e frames w =
     (let w' = w\<lparr>read_calls := Suc (read_calls w)\<rparr> in
      case read_outcome e (read_calls w) of
        Inl ex \<Rightarrow>
          (frames, w'\<lparr>stdout := stdout w' @ [''Error reading audio chunk: '' @ str_of ex]\<rparr>)
      | Inr data \<Rightarrow>
          (case frombuffer data of
             Inl ex \<Rightarrow>
               (frames, w'\<lparr>stdout := stdout w' @ [''Error reading audio chunk: '' @ str_of ex]\<rparr>)
           | Inr samples \<Rightarrow> (frames @ [samples], w')))"

fun read_chunks :: "env \<Rightarrow> nat \<Rightarrow> 16 word list list \<Rightarrow> world \<Rightarrow> 16 word list list \<times> world" where
  "read_chunks e 0 frames w = (frames, w)"
| "read_chunks e (Suc n) frames w =
     (case read_chunk e frames w of (frames', w') \<Rightarrow> read_chunks e n frames' w')"

definition record_audio :: "env \<Rightarrow> world \<Rightarrow> (error + real list) \<times> world" where
  "record_audio e w =
     (case open_stream e w of
        (Inl ex, w1) \<Rightarrow> (Inl ex, w1)
      | (Inr u, w1) \<Rightarrow>
          (case range_stop (RECORD_SECONDS w1) of
             Inl ex \<Rightarrow> (Inl ex, w1)
           | Inr stop \<Rightarrow>
               (case read_chunks e (nat stop) [] w1 of
                  (frames, w2) \<Rightarrow>
                    (case concatenate frames of
                       Inl ex \<Rightarrow> (Inl ex, w2)
                     | Inr samples \<Rightarrow> (Inr (normalize samples), w2)))))"

text \<open>The handler of \<^verbatim>\<open>WhisperRecognizer.listen\<close>: report on standard output, return \<open>""\<close>.\<close>

definition recognition_failed :: "error \<Rightarrow> world \<Rightarrow> (error + string) \<times> world" where
  "recognition_failed ex w =
     (Inr '''', w\<lparr>stdout := stdout w @ [''Error during speech recognition: '' @ str_of ex]\<rparr>)"

text \<open>
  The transcription step of \<^verbatim>\<open>listen\<close>: the call of the model with the fixed decoding
  options, \<^verbatim>\<open>result["text"]\<close> and \<^verbatim>\<open>.strip()\<close>; each of the three may raise.
\<close>

definition decoding_args :: "real list \<Rightarrow> transcribe_args" where
  "decoding_args audio_data =
     \<lparr> audio = audio_data, fp16 = False, language = ''en'',
       initial_prompt = ''stop listening'' \<rparr>"

definition transcribe_text :: "env \<Rightarrow> nat \<Rightarrow> transcribe_args \<Rightarrow> error + string" where
  "transcribe_text e k args =
     (case transcribe_outcome e k args of
        Inl ex \<Rightarrow> Inl ex
      | Inr result \<Rightarrow>
          (case getitem result ''text'' of
             Inl ex \<Rightarrow> Inl ex
           | Inr v \<Rightarrow> strip_method v))"

definition WhisperRecognizer_listen :: "env \<Rightarrow> world \<Rightarrow> (error + string) \<times> world" where
  "WhisperRecognizer_listen e w =
     (case record_audio e w of
        (Inl ex, w1) \<Rightarrow> recognition_failed ex w1
      | (Inr audio_data, w1) \<Rightarrow>
          (let args = decoding_args audio_data;
               w2 = w1\<lparr>model_calls := model_calls w1 @ [args]\<rparr>
           in case transcribe_text e (length (model_calls w1)) args of
                Inl ex \<Rightarrow> recognition_failed ex w2
              | Inr text \<Rightarrow>
                  (Inr text,
                   w2\<lparr>stdout := stdout w2 @ [''[DEBUG] Raw transcription: '' @ text]\<rparr>)))"

text \<open>The state after \<open>n\<close> calls of \<^verbatim>\<open>listen\<close> in sequence on one recognizer.\<close>

fun listen_times :: "env \<Rightarrow> nat \<Rightarrow> world \<Rightarrow> world" where
  "listen_times e 0 w = w"
| "listen_times e (Suc n) w = listen_times e n (snd (WhisperRecognizer_listen e w))"

text \<open>
  \<^verbatim>\<open>__init__\<close> as a whole. Two of its calls can raise: \<^verbatim>\<open>pyaudio.PyAudio()\<close>, which
  acquires the audio, and \<^verbatim>\<open>whisper.load_model\<close>. The object is then not handed to the
  caller, but it exists until it is collected, with the attributes assigned before the
  raise: without \<open>audio\<close>, \<open>model\<close> and \<open>stream\<close> in the first case, and with the
  acquired \<open>audio\<close> but without \<open>model\<close> and \<open>stream\<close> in the second (the \<open>stream\<close>
  field of the state it carries is then not an attribute of the object).
\<close>

datatype recognizer =
    Constructed world
  | Without_model world
  | Without_audio world

definition WhisperRecognizer_new :: "env \<Rightarrow> string \<Rightarrow> real \<Rightarrow> (error + unit) \<times> recognizer" where
  "WhisperRecognizer_new e model_size record_seconds =
     (let w = WhisperRecognizer_init model_size record_seconds in
      case pyaudio_outcome e of
        Some ex \<Rightarrow> (Inl ex, Without_audio (w\<lparr>stdout := []\<rparr>))
      | None \<Rightarrow>
          (case load_model_outcome e model_size of
             Some ex \<Rightarrow> (Inl ex, Without_model w)
           | None \<Rightarrow> (Inr (), Constructed w)))"

text \<open>
  \<^verbatim>\<open>__del__\<close>, which runs on every object that is collected, constructed or not: the
  test of \<^verbatim>\<open>self.stream\<close> and three calls in sequence with no handler, so an exception
  of one step ends the method and the calls after it are not made. On an object without
  the attribute \<open>stream\<close> the test itself raises.
\<close>

definition del :: "env \<Rightarrow> recognizer \<Rightarrow> (error + unit) \<times> world" where
  "del e obj =
     (let terminate = (\<lambda>w. let w' = w\<lparr>teardown_calls := teardown_calls w @ [Terminate]\<rparr> in
                            case terminate_outcome e of
                              Some ex \<Rightarrow> (Inl ex, w')
                            | None \<Rightarrow> (Inr (), w'))
      in case obj of
           Without_audio w \<Rightarrow>
             (Inl (AttributeError ''WhisperRecognizer object has no attribute stream''), w)
         | Without_model w \<Rightarrow>
             (Inl (AttributeError ''WhisperRecognizer object has no attribute stream''), w)
         | Constructed w \<Rightarrow>
             (case stream w of
                None \<Rightarrow> terminate w
              | Some h \<Rightarrow>
                  (let w1 = w\<lparr>teardown_calls := teardown_calls w @ [Stop_stream]\<rparr> in
                   case stop_stream_outcome e of
                     Some ex \<Rightarrow> (Inl ex, w1)
                   | None \<Rightarrow>
                       (let w2 = w1\<lparr>teardown_calls := teardown_calls w1 @ [Close_stream]\<rparr> in
                        case close_outcome e of
                          Some ex \<Rightarrow> (Inl ex, w2)
                        | None \<Rightarrow> terminate w2))))"

section \<open>SpeechHandler\<close>

text \<open>
  \<^verbatim>\<open>logging.getLogger("SpeechHandler")\<close> is one object for the whole process. Its state
  is its level and the file handlers attached to it; every handler appends to the same
  file \<^verbatim>\<open>logs/speech.log\<close>, the log sink. A line of the sink is kept as its level and
  its message (the time stamp is left out). A fresh process has no handler on the logger
  and no level set on it.
\<close>

datatype level = INFO | ERROR

fun levelno :: "level \<Rightarrow> nat" where
  "levelno INFO = 20"
| "levelno ERROR = 40"

record logger =
  logger_level :: "nat option"
  handlers :: nat
  sink :: "(level \<times> string) list"

definition fresh_logger :: logger where
  "fresh_logger = \<lparr> logger_level = None, handlers = 0, sink = [] \<rparr>"

text \<open>
  A logger without a level of its own inherits the level of the root logger, which is
  \<^verbatim>\<open>WARNING\<close> (30) unless configured.
\<close>

definition isEnabledFor :: "logger \<Rightarrow> level \<Rightarrow> bool" where
  "isEnabledFor lg lvl =
     (case logger_level lg of None \<Rightarrow> 30 \<le> levelno lvl | Some n \<Rightarrow> n \<le> levelno lvl)"

text \<open>A message that passes the level is written once by every attached handler.\<close>

definition logger_log :: "level \<Rightarrow> string \<Rightarrow> logger \<Rightarrow> logger" where
  "logger_log lvl msg lg =
     (if isEnabledFor lg lvl
      then lg\<lparr>sink := sink lg @ replicate (handlers lg) (lvl, msg)\<rparr>
      else lg)"

definition setup_logging :: "logger \<Rightarrow> logger" where
  "setup_logging lg = lg\<lparr>logger_level := Some (levelno INFO), handlers := Suc (handlers lg)\<rparr>"

definition SpeechHandler_init :: "logger \<Rightarrow> logger" where
  "SpeechHandler_init lg = logger_log INFO ''Speech Handler initialized'' (setup_logging lg)"

text \<open>
  \<^verbatim>\<open>SpeechHandler.listen\<close> works with any recognizer: the recognizer's \<^verbatim>\<open>listen\<close> is
  a parameter, a function on the recognizer's own state that returns a string or raises.
\<close>

definition SpeechHandler_listen ::
  "('w \<Rightarrow> (error + string) \<times> 'w) \<Rightarrow> logger \<times> 'w \<Rightarrow> (error + string) \<times> logger \<times> 'w" where
  "SpeechHandler_listen recognizer_listen s =
     (case s of (lg, w) \<Rightarrow>
        (let lg1 = logger_log INFO ''Starting to listen...'' lg in
         case recognizer_listen w of
           (Inr text, w1) \<Rightarrow> (Inr text, logger_log INFO (''Heard: '' @ text) lg1, w1)
         | (Inl ex, w1) \<Rightarrow>
             (Inr '''', logger_log ERROR (''Error while listening: '' @ str_of ex) lg1, w1)))"

text \<open>The lines of a sink at error level.\<close>

definition error_lines :: "(level \<times> string) list \<Rightarrow> (level \<times> string) list" where
  "error_lines ls = filter (\<lambda>l. fst l = ERROR) ls"

section \<open>Scenarios\<close>

text \<open>
  The mocks of the end-to-end scenarios. In \<open>quiet_env\<close> the audio is acquired, the model
  loads, the device opens, every read yields one chunk of \<open>CHUNK\<close> zero samples (two zero
  bytes each), and the model answers \<^verbatim>\<open>{"text": " hello "}\<close>. \<open>failing_env\<close> differs in
  that every read raises, \<open>loud_env\<close> in that every read yields the two extreme samples
  32767 and -32768, \<open>stop_fails_env\<close> in that \<^verbatim>\<open>stop_stream\<close> raises at teardown, and
  \<open>no_model_env\<close> in that loading the model raises.
\<close>

definition quiet_env :: env where
  "quiet_env =
     \<lparr> open_outcome = (\<lambda>k. Inr 1),
       read_outcome = (\<lambda>k. Inr (replicate (2 * CHUNK) 0)),
       transcribe_outcome = (\<lambda>k args. Inr (PyDict [(''text'', PyStr '' hello '')])),
       stop_stream_outcome = None,
       close_outcome = None,
       terminate_outcome = None,
       pyaudio_outcome = None,
       load_model_outcome = (\<lambda>model_size. None) \<rparr>"

definition failing_env :: env where
  "failing_env = quiet_env\<lparr>read_outcome := (\<lambda>k. Inl (OSError ''Input overflowed''))\<rparr>"

definition loud_env :: env where
  "loud_env = quiet_env\<lparr>read_outcome := (\<lambda>k. Inr [0xFF, 0x7F, 0x00, 0x80])\<rparr>"

definition stop_fails_env :: env where
  "stop_fails_env = quiet_env\<lparr>stop_stream_outcome := Some (OSError ''Stream not open'')\<rparr>"

definition no_model_env :: env where
  "no_model_env =
     quiet_env\<lparr>load_model_outcome := (\<lambda>model_size. Some (RuntimeError ''Model not found''))\<rparr>"

section \<open>Facts about floats\<close>

lemma round_half_even_bounds: "\<lfloor>y\<rfloor> \<le> round_half_even y \<and> round_half_even y \<le> \<lceil>y\<rceil>"
  unfolding round_half_even_def Let_def
  by (auto simp: ceiling_def) linarith+

lemma round_half_even_of_int [simp]: "round_half_even (of_int k) = k"
  by (simp add: round_half_even_def)

lemma float_exponent_bounds:
  assumes "x \<noteq> 0"
  shows "2 powi float_exponent x \<le> \<bar>x\<bar> \<and> \<bar>x\<bar> < 2 powi (float_exponent x + 1)"
proof (cases "1 \<le> \<bar>x\<bar>")
  case True
  define n where "n = \<lfloor>\<bar>x\<bar>\<rfloor>"
  from True have n: "0 < n" by (simp add: n_def)
  from n have b1: "1 \<le> bitlen n" by (auto simp: bitlen_alt_def)
  from bitlen_bounds [OF n] have lo: "2 ^ nat (bitlen n - 1) \<le> n" and hi: "n < 2 ^ nat (bitlen n)"
    by simp_all
  have e: "float_exponent x = bitlen n - 1"
    using True by (simp add: float_exponent_def n_def)
  have "real_of_int (2 ^ nat (bitlen n - 1)) \<le> real_of_int n"
    using lo by (simp only: of_int_le_iff)
  also have "real_of_int n \<le> \<bar>x\<bar>" by (simp add: n_def)
  finally have 1: "2 powi (bitlen n - 1) \<le> \<bar>x\<bar>"
    using b1 by (simp add: power_int_def)
  from hi have "n + 1 \<le> 2 ^ nat (bitlen n)" by simp
  then have "real_of_int (n + 1) \<le> real_of_int (2 ^ nat (bitlen n))"
    by (simp only: of_int_le_iff)
  moreover have "\<bar>x\<bar> < real_of_int (n + 1)" by (simp add: n_def)
  ultimately have 2: "\<bar>x\<bar> < 2 powi (bitlen n)"
    using b1 by (simp add: power_int_def)
  from 1 2 e show ?thesis by simp
next
  case False
  define y where "y = 1 / \<bar>x\<bar>"
  from False assms have x: "0 < \<bar>x\<bar>" "\<bar>x\<bar> < 1" by simp_all
  then have y: "1 < y" by (simp add: y_def)
  define m where "m = \<lceil>y\<rceil> - 1"
  from y have m: "0 < m" unfolding m_def by linarith
  from m have b1: "1 \<le> bitlen m" by (auto simp: bitlen_alt_def)
  from bitlen_bounds [OF m] have lo: "2 ^ nat (bitlen m - 1) \<le> m" and hi: "m < 2 ^ nat (bitlen m)"
    by simp_all
  have e: "float_exponent x = - bitlen m"
    using False by (simp add: float_exponent_def m_def y_def)
  have my: "real_of_int m < y" "y \<le> real_of_int (m + 1)"
    unfolding m_def by linarith+
  from hi have "m + 1 \<le> 2 ^ nat (bitlen m)" by simp
  then have "real_of_int (m + 1) \<le> real_of_int (2 ^ nat (bitlen m))"
    by (simp only: of_int_le_iff)
  with my(2) have "y \<le> 2 ^ nat (bitlen m)" by simp
  then have "1 / \<bar>x\<bar> \<le> 2 ^ nat (bitlen m)" by (simp add: y_def)
  with x(1) have "1 \<le> 2 ^ nat (bitlen m) * \<bar>x\<bar>"
    by (simp add: field_simps)
  then have 1: "2 powi (- bitlen m) \<le> \<bar>x\<bar>"
    using b1 by (simp add: power_int_def field_simps)
  have "real_of_int (2 ^ nat (bitlen m - 1)) \<le> real_of_int m"
    using lo by (simp only: of_int_le_iff)
  also note my(1)
  finally have "2 ^ nat (bitlen m - 1) < y" by simp
  then have "2 ^ nat (bitlen m - 1) < 1 / \<bar>x\<bar>" by (simp add: y_def)
  with x(1) have "2 ^ nat (bitlen m - 1) * \<bar>x\<bar> < 1"
    by (simp add: field_simps)
  moreover have "- bitlen m + 1 = - int (nat (bitlen m - 1))"
    using b1 by simp
  ultimately have 2: "\<bar>x\<bar> < 2 powi (- bitlen m + 1)"
    by (simp only: power_int_minus power_int_of_nat) (simp add: field_simps)
  from 1 2 e show ?thesis by simp
qed

lemma float_exponent_unique:
  assumes "2 powi k \<le> \<bar>x\<bar>" and "\<bar>x\<bar> < 2 powi (k + 1)"
  shows "float_exponent x = k"
proof -
  have "(0 :: real) < 2 powi k" by simp
  with assms(1) have "0 < \<bar>x\<bar>" by linarith
  then have "x \<noteq> 0" by simp
  from float_exponent_bounds [OF this]
  have lo: "2 powi float_exponent x \<le> \<bar>x\<bar>" and hi: "\<bar>x\<bar> < 2 powi (float_exponent x + 1)"
    by simp_all
  have "k \<le> float_exponent x"
  proof (rule ccontr)
    assume "\<not> k \<le> float_exponent x"
    then have "float_exponent x + 1 \<le> k" by simp
    then have "(2 :: real) powi (float_exponent x + 1) \<le> 2 powi k"
      by (intro power_int_increasing) simp_all
    with hi assms(1) show False by simp
  qed
  moreover have "float_exponent x \<le> k"
  proof (rule ccontr)
    assume "\<not> float_exponent x \<le> k"
    then have "k + 1 \<le> float_exponent x" by simp
    then have "(2 :: real) powi (k + 1) \<le> 2 powi float_exponent x"
      by (intro power_int_increasing) simp_all
    with lo assms(2) show False by simp
  qed
  ultimately show ?thesis by simp
qed

lemma round_double_eval:
  assumes "2 powi k \<le> \<bar>x\<bar>" and "\<bar>x\<bar> < 2 powi (k + 1)" and "- 1022 \<le> k"
  shows "round_double x = of_int (round_half_even (x / 2 powi (k - 52))) * 2 powi (k - 52)"
  using float_exponent_unique [OF assms(1,2)] assms(3)
  by (simp add: round_double_def ulp_exponent_def)

lemma round_double_nonneg:
  assumes "0 \<le> x"
  shows "0 \<le> round_double x"
proof -
  have "0 \<le> x / 2 powi ulp_exponent x"
    using assms by simp
  then have "0 \<le> \<lfloor>x / 2 powi ulp_exponent x\<rfloor>" by simp
  with round_half_even_bounds [of "x / 2 powi ulp_exponent x"]
  have "0 \<le> round_half_even (x / 2 powi ulp_exponent x)" by linarith
  then show ?thesis
    by (simp add: round_double_def)
qed

lemma round_double_between:
  assumes "1 \<le> x" and "x < 2 ^ 53"
  shows "of_int \<lfloor>x\<rfloor> \<le> round_double x \<and> round_double x \<le> of_int \<lfloor>x\<rfloor> + 1 \<and>
         (x = of_int \<lfloor>x\<rfloor> \<longrightarrow> round_double x = x)"
proof -
  define e where "e = float_exponent x"
  from assms(1) have nz: "x \<noteq> 0" and ax: "\<bar>x\<bar> = x" by simp_all
  from float_exponent_bounds [OF nz] ax
  have lo: "2 powi e \<le> x" and hi: "x < 2 powi (e + 1)"
    by (simp_all add: e_def)
  have e0: "0 \<le> e"
  proof (rule ccontr)
    assume "\<not> 0 \<le> e"
    then have "e + 1 \<le> 0" by simp
    then have "(2 :: real) powi (e + 1) \<le> 2 powi 0"
      by (intro power_int_increasing) simp_all
    with hi assms(1) show False by simp
  qed
  have e52: "e \<le> 52"
  proof (rule ccontr)
    assume "\<not> e \<le> 52"
    then have "53 \<le> e" by simp
    then have "(2 :: real) powi 53 \<le> 2 powi e"
      by (intro power_int_increasing) simp_all
    with lo assms(2) show False by simp
  qed
  define N :: int where "N = 2 ^ nat (52 - e)"
  have Npos: "0 < N" by (simp add: N_def)
  have u: "ulp_exponent x = - int (nat (52 - e))"
    using e0 e52 by (simp add: ulp_exponent_def e_def)
  have q: "(2 :: real) powi ulp_exponent x = 1 / of_int N"
    unfolding u by (simp only: power_int_minus power_int_of_nat) (simp add: N_def field_simps)
  define y where "y = x * of_int N"
  have rd: "round_double x = of_int (round_half_even y) / of_int N"
    by (simp add: round_double_def q y_def)
  define n where "n = \<lfloor>x\<rfloor>"
  have nx: "of_int n \<le> x" "x < of_int n + 1"
    by (simp_all add: n_def)
  have "real_of_int (n * N) \<le> y"
    using nx(1) Npos by (simp add: y_def)
  then have l1: "n * N \<le> \<lfloor>y\<rfloor>"
    by (simp add: le_floor_iff)
  have "y \<le> real_of_int ((n + 1) * N)"
    using nx(2) Npos by (simp add: y_def)
  then have l2: "\<lceil>y\<rceil> \<le> (n + 1) * N"
    by (simp add: ceiling_le_iff)
  from round_half_even_bounds [of y] l1 l2
  have b: "n * N \<le> round_half_even y" "round_half_even y \<le> (n + 1) * N"
    by linarith+
  have "real_of_int (n * N) \<le> real_of_int (round_half_even y)"
    using b(1) by (simp only: of_int_le_iff)
  then have 1: "of_int n \<le> round_double x"
    using Npos by (simp add: rd field_simps)
  have "real_of_int (round_half_even y) \<le> real_of_int ((n + 1) * N)"
    using b(2) by (simp only: of_int_le_iff)
  then have 2: "round_double x \<le> of_int n + 1"
    using Npos by (simp add: rd field_simps)
  have 3: "round_double x = x" if "x = of_int n"
  proof -
    from that have "y = of_int (n * N)" by (simp add: y_def)
    then have "round_half_even y = n * N" by (simp only: round_half_even_of_int)
    then have "round_double x = of_int (n * N) / of_int N" by (simp only: rd)
    also have "\<dots> = of_int n" using Npos by simp
    finally show ?thesis using that by simp
  qed
  from 1 2 3 show ?thesis by (simp add: n_def)
qed

lemma floor_round_double:
  assumes "1 \<le> x" and "x < 2 ^ 53"
  shows "1 \<le> \<lfloor>round_double x\<rfloor> \<and>
         \<bar>of_int \<lfloor>round_double x\<rfloor> - x\<bar> < 1 \<and>
         round_double x \<le> 2 ^ 53"
proof -
  define n where "n = \<lfloor>x\<rfloor>"
  define r where "r = round_double x"
  from round_double_between [OF assms]
  have b: "of_int n \<le> r" "r \<le> of_int n + 1" "x = of_int n \<Longrightarrow> r = x"
    by (simp_all add: n_def r_def)
  have nx: "of_int n \<le> x" "x < of_int n + 1"
    by (simp_all add: n_def)
  from assms(1) have n1: "1 \<le> n" by (simp add: n_def)
  from b(1) have fl: "n \<le> \<lfloor>r\<rfloor>" by (simp add: le_floor_iff)
  from b(2) have fu: "\<lfloor>r\<rfloor> \<le> n + 1"
    by (metis floor_mono floor_of_int of_int_1 of_int_add)
  have d: "\<bar>of_int \<lfloor>r\<rfloor> - x\<bar> < 1"
  proof (cases "\<lfloor>r\<rfloor> = n")
    case True
    with nx show ?thesis by simp
  next
    case False
    with fl fu have f: "\<lfloor>r\<rfloor> = n + 1" by simp
    have "x \<noteq> of_int n"
    proof
      assume "x = of_int n"
      from b(3) [OF this] this have "r = of_int n" by simp
      then have "\<lfloor>r\<rfloor> = n" by simp
      with False show False by simp
    qed
    with nx(1) have "of_int n < x" by simp
    with nx(2) f show ?thesis by simp
  qed
  have "x < 2 ^ 53" by fact
  then have "n < 2 ^ 53"
    using nx(1) by (metis (mono_tags) le_less_trans of_int_less_numeral_power_cancel_iff)
  then have "n + 1 \<le> 2 ^ 53" by simp
  then have "real_of_int (n + 1) \<le> real_of_int (2 ^ 53)"
    by (simp only: of_int_le_iff)
  with b(2) have r53: "r \<le> 2 ^ 53" by simp
  from n1 fl have c1: "1 \<le> \<lfloor>r\<rfloor>" by linarith
  from c1 d r53 show ?thesis unfolding r_def by blast
qed

lemma round_double_below_one:
  assumes "0 \<le> x" and "x < 1 - 1 / 2 ^ 54"
  shows "round_double x < 1"
proof (cases "x = 0")
  case True
  have "round_half_even 0 = 0"
    using round_half_even_of_int [of 0] by simp
  with True show ?thesis by (simp add: round_double_def)
next
  case False
  with assms(1) have pos: "0 < x" and ax: "\<bar>x\<bar> = x" by simp_all
  define e where "e = float_exponent x"
  from float_exponent_bounds [OF False] ax
  have lo: "2 powi e \<le> x" and hi: "x < 2 powi (e + 1)"
    by (simp_all add: e_def)
  have e1: "e \<le> - 1"
  proof (rule ccontr)
    assume "\<not> e \<le> - 1"
    then have "0 \<le> e" by simp
    then have "(2 :: real) powi 0 \<le> 2 powi e"
      by (intro power_int_increasing) simp_all
    with lo assms(2) show False by simp
  qed
  define u where "u = ulp_exponent x"
  define y where "y = x / 2 powi u"
  have rd: "round_double x = of_int (round_half_even y) * 2 powi u"
    by (simp add: round_double_def u_def y_def)
  show ?thesis
  proof (cases "e = - 1")
    case True
    then have u: "u = - 53" by (simp add: u_def ulp_exponent_def e_def)
    have y: "y = x * 2 ^ 53"
      by (simp add: y_def u power_int_minus field_simps)
    from assms(2) have "y < 2 ^ 53 - 1 / 2"
      unfolding y by (simp add: field_simps)
    have "round_half_even y \<le> 2 ^ 53 - 1"
    proof -
      have fl: "\<lfloor>y\<rfloor> \<le> 2 ^ 53 - 1"
        using \<open>y < 2 ^ 53 - 1 / 2\<close> by (simp add: floor_le_iff)
      show ?thesis
      proof (cases "\<lfloor>y\<rfloor> = 2 ^ 53 - 1")
        case True
        then have "y - of_int \<lfloor>y\<rfloor> < 1 / 2"
          using \<open>y < 2 ^ 53 - 1 / 2\<close> by simp
        then have "round_half_even y = \<lfloor>y\<rfloor>"
          by (simp add: round_half_even_def Let_def)
        with True show ?thesis by simp
      next
        case False
        with fl have "\<lfloor>y\<rfloor> + 1 \<le> 2 ^ 53 - 1" by linarith
        moreover have "round_half_even y \<le> \<lfloor>y\<rfloor> + 1"
          using round_half_even_bounds [of y] by linarith
        ultimately show ?thesis by linarith
      qed
    qed
    then have "real_of_int (round_half_even y) \<le> real_of_int (2 ^ 53 - 1)"
      by (simp only: of_int_le_iff)
    then have "round_double x \<le> (2 ^ 53 - 1) / 2 ^ 53"
      by (simp add: rd u power_int_minus field_simps)
    then show ?thesis by simp
  next
    case False
    with e1 have e2: "e \<le> - 2" by simp
    define c where "c = max e (- 1022)"
    have c2: "c \<le> - 2" and ce: "e \<le> c" using e2 by (simp_all add: c_def)
    have u: "u = c - 52" by (simp add: u_def ulp_exponent_def e_def c_def)
    have "(2 :: real) powi (e + 1) \<le> 2 powi (c + 1)"
      using ce by (intro power_int_increasing) simp_all
    with hi have "x < 2 powi (c + 1)" by simp
    also have "(2 :: real) powi (c + 1) = 2 ^ 53 * 2 powi u"
      unfolding u by (simp add: power_int_diff power_int_add)
    finally have "y < 2 ^ 53"
      by (simp add: y_def field_simps)
    then have "\<lceil>y\<rceil> \<le> 2 ^ 53"
      by (simp add: ceiling_le_iff)
    with round_half_even_bounds [of y] have "round_half_even y \<le> 2 ^ 53" by linarith
    then have "real_of_int (round_half_even y) \<le> real_of_int (2 ^ 53)"
      by (simp only: of_int_le_iff)
    then have "round_double x \<le> 2 ^ 53 * 2 powi u"
      by (simp add: rd)
    also have "\<dots> = 2 powi (c + 1)"
      unfolding u by (simp add: power_int_diff power_int_add)
    also have "\<dots> \<le> 2 powi (- 1)"
      using c2 by (intro power_int_increasing) simp_all
    finally show ?thesis by (simp add: power_int_minus)
  qed
qed

lemma short_product_below_one:
  assumes "0 < D" and "is_float D" and "125 / 8 * D < 1"
  shows "round_double (125 / 8 * D) < 1"
proof (cases "D < 1 / 16")
  case True
  then have "125 / 8 * D < 1 - 1 / 2 ^ 54" by simp
  with assms(1) show ?thesis
    by (intro round_double_below_one) simp_all
next
  case False
  with assms(1,3) have lo: "2 powi (- 4) \<le> \<bar>D\<bar>" and hi: "\<bar>D\<bar> < 2 powi (- 4 + 1)"
    by (simp_all add: power_int_minus)
  define m where "m = round_half_even (D / 2 powi (- 4 - 52))"
  from round_double_eval [OF lo hi] assms(2) have "D = of_int m * 2 powi (- 4 - 52)"
    by (simp add: is_float_def m_def)
  then have D: "D = of_int m / 2 ^ 56"
    by (simp add: power_int_minus field_simps)
  with assms(3) have "real_of_int (125 * m) < real_of_int (2 ^ 59)"
    by simp
  then have "125 * m < 2 ^ 59"
    by (simp only: of_int_less_iff)
  then have "m \<le> 4611686018427387"
    by simp
  then have "real_of_int m \<le> 4611686018427387"
    by (metis of_int_le_iff of_int_numeral)
  then have "125 / 8 * D < 1 - 1 / 2 ^ 54"
    unfolding D by simp
  with assms(1) show ?thesis
    by (intro round_double_below_one) simp_all
qed

lemma float_literal_tenth: "float_literal (1 / 10) = 3602879701896397 / 2 ^ 55"
  unfolding float_literal_def
  using round_double_eval [of "- 4" "1 / 10"]
  by (simp add: round_half_even_def power_int_minus)

lemma float_literal_twentieth: "float_literal (1 / 20) = 3602879701896397 / 2 ^ 56"
  unfolding float_literal_def
  using round_double_eval [of "- 5" "1 / 20"]
  by (simp add: round_half_even_def power_int_minus)

lemma float_literal_064: "float_literal (64 / 1000) = 4611686018427388 / 2 ^ 56"
  unfolding float_literal_def
  using round_double_eval [of "- 4" "64 / 1000"]
  by (simp add: round_half_even_def power_int_minus)

lemma is_float_tenth: "is_float (float_literal (1 / 10))"
  unfolding is_float_def overflows_def float_literal_tenth
  using round_double_eval [of "- 4" "3602879701896397 / 2 ^ 55"]
  by (simp add: round_half_even_def power_int_minus)

lemma is_float_twentieth: "is_float (float_literal (1 / 20))"
  unfolding is_float_def overflows_def float_literal_twentieth
  using round_double_eval [of "- 5" "3602879701896397 / 2 ^ 56"]
  by (simp add: round_half_even_def power_int_minus)

lemma is_float_064: "is_float (float_literal (64 / 1000))"
  unfolding is_float_def overflows_def float_literal_064
  using round_double_eval [of "- 4" "4611686018427388 / 2 ^ 56"]
  by (simp add: round_half_even_def power_int_minus)

lemma is_float_5: "is_float 5"
  unfolding is_float_def overflows_def
  using round_double_eval [of 2 5]
  by (simp add: round_half_even_def power_int_minus)

lemma is_float_big: "is_float 2251799813685264"
  unfolding is_float_def overflows_def
  using round_double_eval [of 51 2251799813685264]
  by (simp add: round_half_even_def power_int_minus)

lemma rate_per_chunk: "round_double (real RATE / real CHUNK) = 125 / 8"
  using round_double_eval [of 3 "16000 / 1024"]
  by (simp add: round_half_even_def power_int_minus RATE_def CHUNK_def)

lemma range_stop_is_float:
  assumes "is_float D"
  shows "range_stop D =
           (if overflows (round_double (125 / 8 * D))
            then Inl (OverflowError ''cannot convert float infinity to integer'')
            else Inr (py_int (round_double (125 / 8 * D))))"
  using assms by (simp add: range_stop_def is_float_def rate_per_chunk Let_def)

lemma num_chunks_Inr: "range_stop D = Inr stop \<Longrightarrow> num_chunks D = nat stop"
  by (simp add: num_chunks_def)

lemma num_chunks_Inl: "range_stop D = Inl ex \<Longrightarrow> num_chunks D = 0"
  by (simp add: num_chunks_def)

lemma range_stop_5: "range_stop 5 = Inr 78"
proof -
  have p: "round_double (125 / 8 * 5) = 625 / 8"
    using round_double_eval [of 6 "125 / 8 * 5"]
    by (simp add: round_half_even_def power_int_minus)
  show ?thesis
    unfolding range_stop_is_float [OF is_float_5] p
    by (simp add: overflows_def py_int_def)
qed

lemma range_stop_tenth: "range_stop (float_literal (1 / 10)) = Inr 1"
proof -
  have p: "round_double (125 / 8 * float_literal (1 / 10)) = 25 / 16"
    unfolding float_literal_tenth
    using round_double_eval [of 0 "125 / 8 * (3602879701896397 / 2 ^ 55)"]
    by (simp add: round_half_even_def power_int_minus)
  show ?thesis
    unfolding range_stop_is_float [OF is_float_tenth] p
    by (simp add: overflows_def py_int_def)
qed

lemma range_stop_twentieth: "range_stop (float_literal (1 / 20)) = Inr 0"
proof -
  have p: "round_double (125 / 8 * float_literal (1 / 20)) = 25 / 32"
    unfolding float_literal_twentieth
    using round_double_eval [of "- 1" "125 / 8 * (3602879701896397 / 2 ^ 56)"]
    by (simp add: round_half_even_def power_int_minus)
  show ?thesis
    unfolding range_stop_is_float [OF is_float_twentieth] p
    by (simp add: overflows_def py_int_def)
qed

lemma range_stop_064: "range_stop (float_literal (64 / 1000)) = Inr 1"
proof -
  have p: "round_double (125 / 8 * float_literal (64 / 1000)) = 1"
    unfolding float_literal_064
    using round_double_eval [of 0 "125 / 8 * (4611686018427388 / 2 ^ 56)"]
    by (simp add: round_half_even_def power_int_minus)
  show ?thesis
    unfolding range_stop_is_float [OF is_float_064] p
    by (simp add: overflows_def py_int_def)
qed

lemma range_stop_big: "range_stop 2251799813685264 = Inr 35184372088832248"
proof -
  have p: "round_double (125 / 8 * 2251799813685264) = 35184372088832248"
    using round_double_eval [of 54 "125 / 8 * 2251799813685264"]
    by (simp add: round_half_even_def power_int_minus)
  show ?thesis
    unfolding range_stop_is_float [OF is_float_big] p
    by (simp add: overflows_def py_int_def)
qed

lemma num_chunks_5: "num_chunks 5 = 78"
  by (simp add: num_chunks_def range_stop_5)

lemma num_chunks_tenth: "num_chunks (float_literal (1 / 10)) = 1"
  by (simp add: num_chunks_def range_stop_tenth)

lemma range_stop_long:
  assumes "is_float D"
    and "1 \<le> real RATE / real CHUNK * D"
    and "real RATE / real CHUNK * D < 2 ^ 53"
  shows "\<exists>stop. range_stop D = Inr stop \<and> 1 \<le> stop \<and>
           \<bar>real_of_int stop * real CHUNK - real RATE * D\<bar> < real CHUNK"
proof -
  define x where "x = 125 / 8 * D"
  from assms(2,3) have x: "1 \<le> x" "x < 2 ^ 53"
    by (simp_all add: x_def RATE_def CHUNK_def)
  define r where "r = round_double x"
  from floor_round_double [OF x]
  have f: "1 \<le> \<lfloor>r\<rfloor>" "\<bar>of_int \<lfloor>r\<rfloor> - x\<bar> < 1" "r \<le> 2 ^ 53"
    by (simp_all add: r_def)
  from f(1) have r1: "1 \<le> r" by linarith
  have "(2 :: real) ^ 53 < 2 ^ 1024" by simp
  with f(3) r1 have fin: "\<not> overflows r"
    by (simp add: overflows_def)
  from r1 have int: "py_int r = \<lfloor>r\<rfloor>"
    by (simp add: py_int_def)
  from fin int have rs: "range_stop D = Inr \<lfloor>r\<rfloor>"
    by (simp add: range_stop_is_float [OF assms(1)] r_def x_def)
  have "real_of_int \<lfloor>r\<rfloor> * real CHUNK - real RATE * D = (of_int \<lfloor>r\<rfloor> - x) * 1024"
    by (simp add: x_def RATE_def CHUNK_def algebra_simps)
  with f(2) have "\<bar>real_of_int \<lfloor>r\<rfloor> * real CHUNK - real RATE * D\<bar> < real CHUNK"
    by (simp add: CHUNK_def abs_mult)
  with rs f(1) show ?thesis by blast
qed

lemma range_stop_short:
  assumes "0 < D" and "is_float D" and "real RATE / real CHUNK * D < 1"
  shows "range_stop D = Inr 0 \<and> round_double (round_double (real RATE / real CHUNK) * D) < 1"
proof -
  define x where "x = 125 / 8 * D"
  from assms(3) have short: "125 / 8 * D < 1"
    by (simp add: RATE_def CHUNK_def)
  define r where "r = round_double x"
  from short_product_below_one [OF assms(1,2) short] have r1: "r < 1"
    by (simp add: r_def x_def)
  from assms(1) have "0 \<le> x" by (simp add: x_def)
  from round_double_nonneg [OF this] have r0: "0 \<le> r"
    by (simp add: r_def)
  have "(1 :: real) < 2 ^ 1024" by simp
  with r0 r1 have fin: "\<not> overflows r"
    by (simp add: overflows_def)
  from r0 r1 have int: "py_int r = 0"
    by (simp add: py_int_def) linarith
  from fin int r1 show ?thesis
    by (simp add: range_stop_is_float [OF assms(2)] rate_per_chunk r_def x_def)
qed

lemma short_duration_iff:
  "real RATE / real CHUNK * D < 1 \<longleftrightarrow> D < 64 / 1000"
  by (simp add: RATE_def CHUNK_def) linarith

lemma record_audio_after_open:
  assumes "open_stream e w = (Inr u, w1)"
  shows "record_audio e w =
     (case range_stop (RECORD_SECONDS w1) of
        Inl ex \<Rightarrow> (Inl ex, w1)
      | Inr stop \<Rightarrow>
          (case read_chunks e (num_chunks (RECORD_SECONDS w1)) [] w1 of
             (frames, w2) \<Rightarrow>
               (case concatenate frames of
                  Inl ex \<Rightarrow> (Inl ex, w2)
                | Inr samples \<Rightarrow> (Inr (normalize samples), w2))))"
  using assms by (simp add: record_audio_def num_chunks_def split: sum.splits)

section \<open>Facts about the model\<close>

lemma sint16_bounds: "- 32768 \<le> sint (s :: 16 word) \<and> sint s \<le> 32767"
  using sint_ge [of s] sint_lt [of s] by simp

lemma normalize_range: "x \<in> set (normalize samples) \<Longrightarrow> - 1 \<le> x \<and> x \<le> 1"
proof -
  assume "x \<in> set (normalize samples)"
  then have "x \<in> (\<lambda>s. real_of_int (sint s) / 32768) ` set samples"
    by (simp add: normalize_def)
  then obtain s :: "16 word" where x: "x = real_of_int (sint s) / 32768"
    by (rule imageE)
  from sint16_bounds [of s] have "- 32768 \<le> real_of_int (sint s)" "real_of_int (sint s) \<le> 32768"
    by linarith+
  with x show ?thesis by simp
qed

lemma normalize_zero: "\<forall>s\<in>set samples. s = 0 \<Longrightarrow> \<forall>x\<in>set (normalize samples). x = 0"
  by (induction samples) (simp_all add: normalize_def)

lemma length_decode_int16: "length (decode_int16 bs) = length bs div 2"
  by (induction bs rule: decode_int16.induct) simp_all

lemma decode_int16_zero: "\<forall>b\<in>set bs. b = 0 \<Longrightarrow> \<forall>s\<in>set (decode_int16 bs). s = 0"
  by (induction bs rule: decode_int16.induct) simp_all

lemma decode_int16_replicate: "decode_int16 (replicate (2 * n) 0) = replicate n 0"
  by (induction n) simp_all

lemma read_chunk_frame:
  "read_chunk e frames w = (frames', w') \<Longrightarrow>
     RECORD_SECONDS w' = RECORD_SECONDS w \<and> stream w' = stream w \<and>
     open_calls w' = open_calls w \<and> opened w' = opened w \<and>
     model_calls w' = model_calls w \<and> teardown_calls w' = teardown_calls w \<and>
     read_calls w' = Suc (read_calls w)"
  by (auto simp: read_chunk_def Let_def split: sum.splits)

lemma read_chunks_frame:
  "read_chunks e n frames w = (frames', w') \<Longrightarrow>
     RECORD_SECONDS w' = RECORD_SECONDS w \<and> stream w' = stream w \<and>
     open_calls w' = open_calls w \<and> opened w' = opened w \<and>
     model_calls w' = model_calls w \<and> teardown_calls w' = teardown_calls w \<and>
     read_calls w' = read_calls w + n"
proof (induction n arbitrary: frames w)
  case 0
  then show ?case by simp
next
  case (Suc n)
  obtain f1 w1 where step: "read_chunk e frames w = (f1, w1)"
    by (cases "read_chunk e frames w")
  with Suc.prems have rest: "read_chunks e n f1 w1 = (frames', w')"
    by simp
  from Suc.IH [OF rest] read_chunk_frame [OF step] show ?case
    by simp
qed

lemma read_chunk_fail:
  "isl (read_outcome e (read_calls w)) \<Longrightarrow> fst (read_chunk e frames w) = frames"
  by (auto simp: read_chunk_def Let_def split: sum.splits)

lemma read_chunks_all_fail:
  "\<forall>k. isl (read_outcome e k) \<Longrightarrow> fst (read_chunks e n frames w) = frames"
proof (induction n arbitrary: w)
  case 0
  then show ?case by simp
next
  case (Suc n)
  obtain f1 w1 where step: "read_chunk e frames w = (f1, w1)"
    by (cases "read_chunk e frames w")
  from Suc.prems have "fst (read_chunk e frames w) = frames"
    by (simp add: read_chunk_fail)
  with step have "f1 = frames" by simp
  with step Suc show ?case by simp
qed

lemma read_chunk_pred:
  assumes "read_chunk e frames w = (frames', w')"
    and "\<forall>f\<in>set frames. P f"
    and "\<forall>k data. read_outcome e k = Inr data \<longrightarrow> length data mod 2 = 0 \<longrightarrow> P (decode_int16 data)"
  shows "\<forall>f\<in>set frames'. P f"
  using assms by (auto simp: read_chunk_def Let_def frombuffer_def split: sum.splits if_splits)

lemma read_chunks_pred:
  assumes "read_chunks e n frames w = (frames', w')"
    and "\<forall>f\<in>set frames. P f"
    and "\<forall>k data. read_outcome e k = Inr data \<longrightarrow> length data mod 2 = 0 \<longrightarrow> P (decode_int16 data)"
  shows "\<forall>f\<in>set frames'. P f"
  using assms
proof (induction n arbitrary: frames w)
  case 0
  then show ?case by simp
next
  case (Suc n)
  obtain f1 w1 where step: "read_chunk e frames w = (f1, w1)"
    by (cases "read_chunk e frames w")
  with Suc.prems(1) have rest: "read_chunks e n f1 w1 = (frames', w')"
    by simp
  from read_chunk_pred [OF step Suc.prems(2) Suc.prems(3)] have "\<forall>f\<in>set f1. P f" .
  from Suc.IH [OF rest this Suc.prems(3)] show ?case .
qed

lemma read_chunk_full:
  assumes "read_chunk e frames w = (frames', w')"
    and "\<forall>k. \<exists>data. read_outcome e k = Inr data \<and> length data = 2 * CHUNK"
  shows "\<exists>f. frames' = frames @ [f] \<and> length f = CHUNK"
proof -
  from assms(2) obtain data where d: "read_outcome e (read_calls w) = Inr data" "length data = 2 * CHUNK"
    by blast
  with assms(1) show ?thesis
    by (auto simp: read_chunk_def Let_def frombuffer_def length_decode_int16)
qed

lemma read_chunks_full:
  assumes "read_chunks e n frames w = (frames', w')"
    and "\<forall>k. \<exists>data. read_outcome e k = Inr data \<and> length data = 2 * CHUNK"
  shows "length frames' = length frames + n \<and>
         length (concat frames') = length (concat frames) + n * CHUNK"
  using assms(1)
proof (induction n arbitrary: frames w)
  case 0
  then show ?case by simp
next
  case (Suc n)
  obtain f1 w1 where step: "read_chunk e frames w = (f1, w1)"
    by (cases "read_chunk e frames w")
  with Suc.prems have rest: "read_chunks e n f1 w1 = (frames', w')"
    by simp
  from read_chunk_full [OF step assms(2)] obtain f where f: "f1 = frames @ [f]" "length f = CHUNK"
    by blast
  from Suc.IH [OF rest] f show ?case
    by simp
qed

lemma record_audio_Inr:
  assumes "record_audio e w = (Inr buf, w')"
  shows "\<exists>(u :: unit) w1 frames. open_stream e w = (Inr u, w1) \<and>
           read_chunks e (num_chunks (RECORD_SECONDS w1)) [] w1 = (frames, w') \<and>
           frames \<noteq> [] \<and> buf = normalize (concat frames)"
  using assms
  by (auto simp: record_audio_def concatenate_def num_chunks_def
      split: prod.splits sum.splits if_splits)

lemma open_stream_Some: "stream w = Some h \<Longrightarrow> open_stream e w = (Inr (), w)"
  by (simp add: open_stream_def)

lemma open_stream_raises:
  "stream w = None \<Longrightarrow> open_outcome e (open_calls w) = Inl ex \<Longrightarrow>
   open_stream e w = (Inl ex, w\<lparr>open_calls := Suc (open_calls w)\<rparr>)"
  by (simp add: open_stream_def)

lemma open_stream_opens:
  "stream w = None \<Longrightarrow> open_outcome e (open_calls w) = Inr h \<Longrightarrow>
   open_stream e w =
     (Inr (), w\<lparr>open_calls := Suc (open_calls w), opened := opened w @ [h], stream := Some h\<rparr>)"
  by (simp add: open_stream_def)

lemma open_stream_frame:
  "open_stream e w = (r, w1) \<Longrightarrow>
     RECORD_SECONDS w1 = RECORD_SECONDS w \<and> read_calls w1 = read_calls w \<and>
     model_calls w1 = model_calls w \<and> teardown_calls w1 = teardown_calls w"
  by (auto simp: open_stream_def split: option.splits sum.splits)

lemma open_stream_Inr_stream:
  "open_stream e w = (Inr u, w1) \<Longrightarrow> stream w1 \<noteq> None"
  by (auto simp: open_stream_def split: option.splits sum.splits)

lemma record_audio_frame:
  assumes "record_audio e w = (r, w')"
  shows "RECORD_SECONDS w' = RECORD_SECONDS w \<and> model_calls w' = model_calls w \<and>
         teardown_calls w' = teardown_calls w"
proof -
  obtain r1 w1 where op: "open_stream e w = (r1, w1)"
    by (cases "open_stream e w")
  note f1 = open_stream_frame [OF op]
  show ?thesis
  proof (cases r1)
    case (Inl ex)
    with assms op have "w' = w1"
      by (simp add: record_audio_def)
    with f1 show ?thesis by simp
  next
    case (Inr u)
    obtain frames w2 where rc: "read_chunks e (num_chunks (RECORD_SECONDS w1)) [] w1 = (frames, w2)"
      by (cases "read_chunks e (num_chunks (RECORD_SECONDS w1)) [] w1")
    with assms op Inr have "w' = w1 \<or> w' = w2"
      by (auto simp: record_audio_after_open split: sum.splits)
    with read_chunks_frame [OF rc] f1 show ?thesis by auto
  qed
qed

lemma record_audio_all_fail:
  assumes "\<forall>k. isl (read_outcome e k)"
  shows "isl (fst (record_audio e w))"
proof -
  obtain r1 w1 where op: "open_stream e w = (r1, w1)"
    by (cases "open_stream e w")
  show ?thesis
  proof (cases r1)
    case (Inl ex)
    with op show ?thesis
      by (simp add: record_audio_def)
  next
    case (Inr u)
    obtain frames w2 where rc: "read_chunks e (num_chunks (RECORD_SECONDS w1)) [] w1 = (frames, w2)"
      by (cases "read_chunks e (num_chunks (RECORD_SECONDS w1)) [] w1")
    from read_chunks_all_fail [OF assms, of "num_chunks (RECORD_SECONDS w1)" "[]" w1] rc
    have "frames = []" by simp
    with op Inr rc show ?thesis
      by (simp add: record_audio_after_open concatenate_def split: sum.splits)
  qed
qed

lemma record_audio_no_frames:
  assumes "open_stream e w = (Inr u, w1)"
    and "range_stop (RECORD_SECONDS w1) = Inr stop"
    and "fst (read_chunks e (num_chunks (RECORD_SECONDS w1)) [] w1) = []"
  shows "fst (record_audio e w) = Inl (ValueError ''need at least one array to concatenate'')"
  using assms
  by (cases "read_chunks e (num_chunks (RECORD_SECONDS w1)) [] w1")
    (simp add: record_audio_after_open concatenate_def)

lemma listen_record_fail:
  assumes "isl (fst (record_audio e w))"
  shows "fst (WhisperRecognizer_listen e w) = Inr '''' \<and>
         model_calls (snd (WhisperRecognizer_listen e w)) = model_calls w \<and>
         read_calls (snd (WhisperRecognizer_listen e w)) = read_calls (snd (record_audio e w))"
proof -
  obtain r w1 where ra: "record_audio e w = (r, w1)"
    by (cases "record_audio e w")
  with assms obtain ex where r: "r = Inl ex"
    by (cases r) simp_all
  from record_audio_frame [OF ra] ra r show ?thesis
    by (simp add: WhisperRecognizer_listen_def recognition_failed_def)
qed

lemma listen_transcribe_fail:
  assumes "record_audio e w = (Inr audio_data, w1)"
    and "isl (transcribe_text e (length (model_calls w1)) (decoding_args audio_data))"
  shows "fst (WhisperRecognizer_listen e w) = Inr ''''"
proof -
  from assms(2) obtain ex where
    "transcribe_text e (length (model_calls w1)) (decoding_args audio_data) = Inl ex"
    by (cases "transcribe_text e (length (model_calls w1)) (decoding_args audio_data)") simp_all
  with assms(1) show ?thesis
    by (simp add: WhisperRecognizer_listen_def recognition_failed_def Let_def)
qed

lemma listen_returns:
  "\<exists>text. fst (WhisperRecognizer_listen e w) = Inr text"
proof -
  obtain r w1 where ra: "record_audio e w = (r, w1)"
    by (cases "record_audio e w")
  show ?thesis
  proof (cases r)
    case (Inl ex)
    with ra show ?thesis
      by (simp add: WhisperRecognizer_listen_def recognition_failed_def)
  next
    case (Inr audio_data)
    with ra show ?thesis
      by (cases "transcribe_text e (length (model_calls w1)) (decoding_args audio_data)")
        (simp_all add: WhisperRecognizer_listen_def recognition_failed_def Let_def)
  qed
qed

lemma handler_listen_returns:
  "\<exists>text. fst (SpeechHandler_listen recognizer_listen (lg, r)) = Inr text"
proof -
  obtain res r1 where rl: "recognizer_listen r = (res, r1)"
    by (cases "recognizer_listen r")
  then show ?thesis
    by (cases res) (simp_all add: SpeechHandler_listen_def Let_def)
qed

lemma handler_listen_Inr:
  "recognizer_listen r = (Inr text, r1) \<Longrightarrow>
   SpeechHandler_listen recognizer_listen (lg, r) =
     (Inr text,
      logger_log INFO (''Heard: '' @ text) (logger_log INFO ''Starting to listen...'' lg), r1)"
  by (simp add: SpeechHandler_listen_def Let_def)

lemma logger_log_info:
  "logger_level lg = Some (levelno INFO) \<Longrightarrow>
   logger_log INFO msg lg = lg\<lparr>sink := sink lg @ replicate (handlers lg) (INFO, msg)\<rparr>"
  by (simp add: logger_log_def isEnabledFor_def)

lemma logger_log_frame:
  "handlers (logger_log lvl msg lg) = handlers lg \<and>
   logger_level (logger_log lvl msg lg) = logger_level lg"
  by (simp add: logger_log_def)

lemma error_lines_log_info:
  "error_lines (sink (logger_log INFO msg lg)) = error_lines (sink lg)"
  by (simp add: logger_log_def error_lines_def)

lemma open_stream_succeeds:
  assumes "stream w \<noteq> None \<or> \<not> isl (open_outcome e (open_calls w))"
  shows "\<exists>w1. open_stream e w = (Inr (), w1)"
proof (cases "stream w")
  case None
  with assms obtain h where "open_outcome e (open_calls w) = Inr h"
    by (cases "open_outcome e (open_calls w)") simp_all
  with None show ?thesis
    by (simp add: open_stream_def)
next
  case (Some h)
  then show ?thesis
    by (simp add: open_stream_def)
qed

lemma record_audio_reads:
  assumes "open_stream e w = (Inr u, w1)"
  shows "read_calls (snd (record_audio e w)) = read_calls w + num_chunks (RECORD_SECONDS w)"
proof -
  obtain frames w2 where rc: "read_chunks e (num_chunks (RECORD_SECONDS w1)) [] w1 = (frames, w2)"
    by (cases "read_chunks e (num_chunks (RECORD_SECONDS w1)) [] w1")
  show ?thesis
  proof (cases "range_stop (RECORD_SECONDS w1)")
    case (Inl ex)
    with assms have "snd (record_audio e w) = w1"
      by (simp add: record_audio_after_open)
    with num_chunks_Inl [OF Inl] open_stream_frame [OF assms] show ?thesis
      by simp
  next
    case (Inr stop)
    with assms rc have "snd (record_audio e w) = w2"
      by (simp add: record_audio_after_open split: sum.splits)
    with read_chunks_frame [OF rc] open_stream_frame [OF assms] show ?thesis
      by simp
  qed
qed

lemma failing_env_reads: "\<forall>k. isl (read_outcome failing_env k)"
  by (simp add: failing_env_def)

lemma failing_env_opens:
  "open_stream failing_env (WhisperRecognizer_init m D) =
     (Inr (), (WhisperRecognizer_init m D)\<lparr>open_calls := 1, opened := [1], stream := Some 1\<rparr>)"
  by (simp add: open_stream_def failing_env_def quiet_env_def WhisperRecognizer_init_def)

lemma failing_env_record_audio:
  "fst (record_audio failing_env (WhisperRecognizer_init m 5)) =
     Inl (ValueError ''need at least one array to concatenate'')"
proof (rule record_audio_no_frames [OF failing_env_opens])
  show "range_stop (RECORD_SECONDS ((WhisperRecognizer_init m 5)
      \<lparr>open_calls := 1, opened := [1], stream := Some 1\<rparr>)) = Inr 78"
    by (simp add: WhisperRecognizer_init_def range_stop_5)
qed (rule read_chunks_all_fail [OF failing_env_reads])

lemma record_audio_open:
  "stream (snd (record_audio e w)) = stream (snd (open_stream e w)) \<and>
   open_calls (snd (record_audio e w)) = open_calls (snd (open_stream e w)) \<and>
   opened (snd (record_audio e w)) = opened (snd (open_stream e w))"
proof -
  obtain r1 w1 where op: "open_stream e w = (r1, w1)"
    by (cases "open_stream e w")
  show ?thesis
  proof (cases r1)
    case (Inl ex)
    with op show ?thesis
      by (simp add: record_audio_def)
  next
    case (Inr u)
    obtain frames w2 where rc: "read_chunks e (num_chunks (RECORD_SECONDS w1)) [] w1 = (frames, w2)"
      by (cases "read_chunks e (num_chunks (RECORD_SECONDS w1)) [] w1")
    with op Inr have "snd (record_audio e w) = w1 \<or> snd (record_audio e w) = w2"
      by (auto simp: record_audio_after_open split: sum.splits)
    with read_chunks_frame [OF rc] op show ?thesis
      by auto
  qed
qed

lemma listen_world:
  "stream (snd (WhisperRecognizer_listen e w)) = stream (snd (record_audio e w)) \<and>
   open_calls (snd (WhisperRecognizer_listen e w)) = open_calls (snd (record_audio e w)) \<and>
   opened (snd (WhisperRecognizer_listen e w)) = opened (snd (record_audio e w)) \<and>
   read_calls (snd (WhisperRecognizer_listen e w)) = read_calls (snd (record_audio e w)) \<and>
   teardown_calls (snd (WhisperRecognizer_listen e w)) = teardown_calls (snd (record_audio e w)) \<and>
   RECORD_SECONDS (snd (WhisperRecognizer_listen e w)) = RECORD_SECONDS (snd (record_audio e w))"
proof -
  obtain r w1 where ra: "record_audio e w = (r, w1)"
    by (cases "record_audio e w")
  show ?thesis
  proof (cases r)
    case (Inl ex)
    with ra show ?thesis
      by (simp add: WhisperRecognizer_listen_def recognition_failed_def)
  next
    case (Inr audio_data)
    with ra show ?thesis
      by (cases "transcribe_text e (length (model_calls w1)) (decoding_args audio_data)")
        (simp_all add: WhisperRecognizer_listen_def recognition_failed_def Let_def)
  qed
qed

lemma listen_stream_Some:
  assumes "stream w = Some h"
  shows "stream (snd (WhisperRecognizer_listen e w)) = Some h \<and>
         open_calls (snd (WhisperRecognizer_listen e w)) = open_calls w \<and>
         opened (snd (WhisperRecognizer_listen e w)) = opened w"
  using listen_world [of e w] record_audio_open [of e w] open_stream_Some [OF assms, of e] assms
  by simp

lemma listen_stream_None:
  assumes "stream w = None" and "open_outcome e (open_calls w) = Inr h"
  shows "stream (snd (WhisperRecognizer_listen e w)) = Some h \<and>
         open_calls (snd (WhisperRecognizer_listen e w)) = Suc (open_calls w) \<and>
         opened (snd (WhisperRecognizer_listen e w)) = opened w @ [h]"
  using listen_world [of e w] record_audio_open [of e w] open_stream_opens [OF assms]
  by simp

lemma listen_stream_raises:
  assumes "stream w = None" and "open_outcome e (open_calls w) = Inl ex"
  shows "stream (snd (WhisperRecognizer_listen e w)) = None \<and>
         opened (snd (WhisperRecognizer_listen e w)) = opened w"
  using listen_world [of e w] record_audio_open [of e w] open_stream_raises [OF assms] assms(1)
  by simp

lemma listen_teardown:
  "teardown_calls (snd (WhisperRecognizer_listen e w)) = teardown_calls w"
  using listen_world [of e w] record_audio_frame [of e w "fst (record_audio e w)" "snd (record_audio e w)"]
  by simp

lemma listen_times_teardown:
  "teardown_calls (listen_times e n w) = teardown_calls w"
  by (induction n arbitrary: w) (simp_all add: listen_teardown)

lemma listen_keeps_one_stream:
  assumes "(stream w = None \<and> opened w = []) \<or> (\<exists>h. stream w = Some h \<and> opened w = [h])"
  shows "(stream (snd (WhisperRecognizer_listen e w)) = None \<and>
            opened (snd (WhisperRecognizer_listen e w)) = []) \<or>
         (\<exists>h. stream (snd (WhisperRecognizer_listen e w)) = Some h \<and>
            opened (snd (WhisperRecognizer_listen e w)) = [h])"
proof (cases "stream w")
  case None
  with assms have emp: "opened w = []" by auto
  show ?thesis
  proof (cases "open_outcome e (open_calls w)")
    case (Inl ex)
    from listen_stream_raises [OF None Inl] emp show ?thesis by simp
  next
    case (Inr h)
    from listen_stream_None [OF None Inr] emp show ?thesis by simp
  qed
next
  case (Some h)
  with assms have "opened w = [h]" by auto
  with listen_stream_Some [OF Some, of e] show ?thesis by simp
qed

lemma listen_times_one_stream:
  assumes "(stream w = None \<and> opened w = []) \<or> (\<exists>h. stream w = Some h \<and> opened w = [h])"
  shows "(stream (listen_times e n w) = None \<and> opened (listen_times e n w) = []) \<or>
         (\<exists>h. stream (listen_times e n w) = Some h \<and> opened (listen_times e n w) = [h])"
  using assms
proof (induction n arbitrary: w)
  case 0
  then show ?case by simp
next
  case (Suc n)
  from Suc.IH [OF listen_keeps_one_stream [OF Suc.prems]] show ?case
    by simp
qed

lemma quiet_env_reads:
  "\<forall>k. \<exists>data. read_outcome quiet_env k = Inr data \<and> length data = 2 * CHUNK"
  by (simp add: quiet_env_def)

lemma quiet_env_opens:
  "open_stream quiet_env (WhisperRecognizer_init m D) =
     (Inr (), (WhisperRecognizer_init m D)\<lparr>open_calls := 1, opened := [1], stream := Some 1\<rparr>)"
  by (simp add: open_stream_def quiet_env_def WhisperRecognizer_init_def)

lemma record_audio_one_chunk:
  assumes "open_stream e w = (Inr u, w1)"
    and "num_chunks (RECORD_SECONDS w1) = Suc 0"
    and "read_chunk e [] w1 = ([f], w2)"
  shows "record_audio e w = (Inr (normalize f), w2)"
proof -
  from assms(3) have "read_chunks e (Suc 0) [] w1 = ([f], w2)"
    by simp
  moreover from assms(2) obtain stop where "range_stop (RECORD_SECONDS w1) = Inr stop"
    by (cases "range_stop (RECORD_SECONDS w1)") (simp_all add: num_chunks_def)
  ultimately show ?thesis
    using assms(1,2) by (simp add: record_audio_after_open concatenate_def)
qed

lemma normalize_silence: "normalize (replicate n 0) = replicate n 0"
  by (simp add: normalize_def)

lemma quiet_env_single_chunk:
  assumes "num_chunks D = Suc 0"
  shows "record_audio quiet_env (WhisperRecognizer_init m D) =
     (Inr (replicate CHUNK 0),
      (WhisperRecognizer_init m D)
        \<lparr>open_calls := 1, opened := [1], stream := Some 1, read_calls := 1\<rparr>)"
proof -
  have chunk: "frombuffer (replicate (2 * CHUNK) 0) = Inr (replicate CHUNK 0)"
    by (simp add: frombuffer_def decode_int16_replicate)
  have n: "num_chunks (RECORD_SECONDS ((WhisperRecognizer_init m D)
      \<lparr>open_calls := 1, opened := [1], stream := Some 1\<rparr>)) = Suc 0"
    using assms by (simp add: WhisperRecognizer_init_def)
  have step: "read_chunk quiet_env []
          ((WhisperRecognizer_init m D)\<lparr>open_calls := 1, opened := [1], stream := Some 1\<rparr>) =
        ([replicate CHUNK 0],
         (WhisperRecognizer_init m D)
           \<lparr>open_calls := 1, opened := [1], stream := Some 1, read_calls := 1\<rparr>)"
    by (simp add: read_chunk_def quiet_env_def chunk WhisperRecognizer_init_def)
  from record_audio_one_chunk [OF quiet_env_opens n step] show ?thesis
    by (simp only: normalize_silence)
qed

lemma quiet_env_one_chunk:
  "record_audio quiet_env (WhisperRecognizer_init m (float_literal (1 / 10))) =
     (Inr (replicate CHUNK 0),
      (WhisperRecognizer_init m (float_literal (1 / 10)))
        \<lparr>open_calls := 1, opened := [1], stream := Some 1, read_calls := 1\<rparr>)"
  by (rule quiet_env_single_chunk) (simp add: num_chunks_tenth)

lemma quiet_env_transcribes: "transcribe_text quiet_env k args = Inr ''hello''"
  by (simp add: transcribe_text_def quiet_env_def strip_def isspace_def)

lemma quiet_env_single_chunk_listen:
  assumes "num_chunks D = Suc 0"
  shows "fst (WhisperRecognizer_listen quiet_env (WhisperRecognizer_init m D)) = Inr ''hello''"
  by (simp add: WhisperRecognizer_listen_def quiet_env_single_chunk [OF assms]
      quiet_env_transcribes Let_def)

lemma record_audio_full:
  assumes "range_stop (RECORD_SECONDS w) = Inr stop" and "1 \<le> stop"
    and "\<forall>k. \<exists>data. read_outcome e k = Inr data \<and> length data = 2 * CHUNK"
    and "stream w \<noteq> None \<or> \<not> isl (open_outcome e (open_calls w))"
  shows "\<exists>buf w'. record_audio e w = (Inr buf, w') \<and> length buf = nat stop * CHUNK"
proof -
  from open_stream_succeeds [OF assms(4)] obtain w1 where op: "open_stream e w = (Inr (), w1)"
    by blast
  from open_stream_frame [OF op] have D: "RECORD_SECONDS w1 = RECORD_SECONDS w"
    by simp
  from num_chunks_Inr [OF assms(1)] have n: "num_chunks (RECORD_SECONDS w) = nat stop" .
  obtain frames w2 where rc: "read_chunks e (nat stop) [] w1 = (frames, w2)"
    by (cases "read_chunks e (nat stop) [] w1")
  from read_chunks_full [OF rc assms(3)]
  have len: "length frames = nat stop" "length (concat frames) = nat stop * CHUNK"
    by simp_all
  from assms(2) len(1) have ne: "frames \<noteq> []"
    by auto
  from op rc ne D n assms(1) have "record_audio e w = (Inr (normalize (concat frames)), w2)"
    by (simp add: record_audio_after_open concatenate_def)
  moreover have "length (normalize (concat frames)) = nat stop * CHUNK"
    by (simp add: normalize_def len(2))
  ultimately show ?thesis
    by blast
qed

lemma del_constructed:
  assumes "stop_stream_outcome e = None" and "close_outcome e = None"
  shows "teardown_calls (snd (del e (Constructed w))) =
           teardown_calls w @
             (case stream w of
                None \<Rightarrow> [Terminate]
              | Some h \<Rightarrow> [Stop_stream, Close_stream, Terminate])"
  using assms
  by (cases "terminate_outcome e"; cases "stream w") (simp_all add: del_def Let_def)

section \<open>The caller always receives a string\<close>

text \<open>
  C1. For every state of the recognizer and every behaviour of the capture device and of
  the transcription model, \<^verbatim>\<open>WhisperRecognizer.listen\<close> returns a string and raises
  nothing; when recording fails, or when the transcription step fails, the string is
  empty. \<^verbatim>\<open>SpeechHandler.listen\<close> returns a string and raises nothing, with any
  recognizer and with this one.
\<close>

theorem listen_never_raises:
  "(\<exists>text. fst (WhisperRecognizer_listen e w) = Inr text) \<and>
   (isl (fst (record_audio e w)) \<longrightarrow> fst (WhisperRecognizer_listen e w) = Inr '''') \<and>
   (\<forall>audio_data w1.
      record_audio e w = (Inr audio_data, w1) \<longrightarrow>
      isl (transcribe_text e (length (model_calls w1)) (decoding_args audio_data)) \<longrightarrow>
      fst (WhisperRecognizer_listen e w) = Inr '''') \<and>
   (\<exists>text. fst (SpeechHandler_listen recognizer_listen (lg, r)) = Inr text) \<and>
   (\<exists>text. fst (SpeechHandler_listen (WhisperRecognizer_listen e) (lg, w)) = Inr text)"
  using listen_returns [of e w] listen_record_fail [of e w] listen_transcribe_fail [of e w]
    handler_listen_returns [of recognizer_listen lg r]
    handler_listen_returns [of "WhisperRecognizer_listen e" lg w]
  by blast

theorem listen_never_raises_witness:
  "isl (fst (record_audio failing_env (WhisperRecognizer_init ''base'' 5))) \<and>
   fst (WhisperRecognizer_listen failing_env (WhisperRecognizer_init ''base'' 5)) = Inr ''''"
proof -
  have "\<forall>k. isl (read_outcome failing_env k)"
    by (simp add: failing_env_def)
  from record_audio_all_fail [OF this]
  have fails: "isl (fst (record_audio failing_env (WhisperRecognizer_init ''base'' 5)))" .
  from listen_never_raises [of failing_env "WhisperRecognizer_init ''base'' 5"
      "WhisperRecognizer_listen failing_env" fresh_logger "WhisperRecognizer_init ''base'' 5"]
  have "isl (fst (record_audio failing_env (WhisperRecognizer_init ''base'' 5))) \<longrightarrow>
        fst (WhisperRecognizer_listen failing_env (WhisperRecognizer_init ''base'' 5)) = Inr ''''"
    by (elim conjE)
  with fails show ?thesis by simp
qed

section \<open>Every read fails\<close>

text \<open>
  C2, as stated, fails: when every read raises, the list of frames is empty,
  \<^verbatim>\<open>np.concatenate\<close> raises on it, and \<^verbatim>\<open>_record_audio\<close> returns no buffer, empty or not.
\<close>

theorem record_audio_empty_buffer_counterexample:
  "fst (record_audio failing_env (WhisperRecognizer_init ''base'' 5)) =
     Inl (ValueError ''need at least one array to concatenate'') \<and>
   fst (record_audio failing_env (WhisperRecognizer_init ''base'' 5)) \<noteq> Inr []"
  by (simp add: failing_env_record_audio)

text \<open>
  C2, amended. If every read from the device raises, no read failure ends the loop (with
  the stream open, every one of the configured reads is attempted), the transcription
  model is not invoked, and \<^verbatim>\<open>listen\<close> returns the empty string.
\<close>

theorem listen_all_reads_fail:
  assumes "\<forall>k. isl (read_outcome e k)"
  shows "fst (WhisperRecognizer_listen e w) = Inr '''' \<and>
         model_calls (snd (WhisperRecognizer_listen e w)) = model_calls w \<and>
         (stream w \<noteq> None \<or> \<not> isl (open_outcome e (open_calls w)) \<longrightarrow>
            read_calls (snd (WhisperRecognizer_listen e w)) =
              read_calls w + num_chunks (RECORD_SECONDS w))"
proof -
  note fail = listen_record_fail [OF record_audio_all_fail [OF assms, of w]]
  have "read_calls (snd (WhisperRecognizer_listen e w)) =
          read_calls w + num_chunks (RECORD_SECONDS w)"
    if "stream w \<noteq> None \<or> \<not> isl (open_outcome e (open_calls w))"
  proof -
    from open_stream_succeeds [OF that] obtain w1 where "open_stream e w = (Inr (), w1)"
      by blast
    from record_audio_reads [OF this] fail show ?thesis
      by simp
  qed
  with fail show ?thesis by blast
qed

theorem listen_all_reads_fail_witness:
  "fst (WhisperRecognizer_listen failing_env (WhisperRecognizer_init ''base'' 5)) = Inr '''' \<and>
   model_calls (snd (WhisperRecognizer_listen failing_env (WhisperRecognizer_init ''base'' 5))) = [] \<and>
   read_calls (snd (WhisperRecognizer_listen failing_env (WhisperRecognizer_init ''base'' 5))) = 78"
proof -
  have opens: "stream (WhisperRecognizer_init ''base'' 5) \<noteq> None \<or>
      \<not> isl (open_outcome failing_env (open_calls (WhisperRecognizer_init ''base'' 5)))"
    by (simp add: failing_env_def quiet_env_def)
  from listen_all_reads_fail [OF failing_env_reads, of "WhisperRecognizer_init ''base'' 5"] opens
  show ?thesis
    by (simp add: WhisperRecognizer_init_def num_chunks_5)
qed

section \<open>What the log records when every read fails\<close>

text \<open>
  C3, as stated, fails: the recognizer reports its failures on standard output and
  returns the empty string, so the handler logs two lines at info level per attached
  file handler and none at error level.
\<close>

theorem handler_error_line_counterexample:
  "fst (SpeechHandler_listen (WhisperRecognizer_listen failing_env)
          (SpeechHandler_init fresh_logger, WhisperRecognizer_init ''base'' 5)) = Inr '''' \<and>
   error_lines (sink (fst (snd (SpeechHandler_listen (WhisperRecognizer_listen failing_env)
          (SpeechHandler_init fresh_logger, WhisperRecognizer_init ''base'' 5))))) = [] \<and>
   length (error_lines (sink (fst (snd (SpeechHandler_listen (WhisperRecognizer_listen failing_env)
          (SpeechHandler_init fresh_logger, WhisperRecognizer_init ''base'' 5)))))) \<noteq> 1"
proof -
  obtain w1 where run: "WhisperRecognizer_listen failing_env (WhisperRecognizer_init ''base'' 5) =
      (Inr '''', w1)"
    using listen_record_fail [OF record_audio_all_fail [OF failing_env_reads],
        of "WhisperRecognizer_init ''base'' 5"]
    by (cases "WhisperRecognizer_listen failing_env (WhisperRecognizer_init ''base'' 5)") simp
  show ?thesis
    by (simp add: handler_listen_Inr [where recognizer_listen = "WhisperRecognizer_listen failing_env" and r = "WhisperRecognizer_init ''base'' 5", OF run] error_lines_log_info)
      (simp add: SpeechHandler_init_def setup_logging_def fresh_logger_def logger_log_def
        isEnabledFor_def error_lines_def)
qed

text \<open>
  C3, amended. When the capture device raises on every read, \<^verbatim>\<open>SpeechHandler.listen\<close>
  returns the empty string and records no line at error level: with the logger at info
  level, each attached file handler appends the two info lines "Starting to listen..."
  and "Heard: " to the sink.
\<close>

theorem handler_all_reads_fail:
  assumes "\<forall>k. isl (read_outcome e k)"
    and "logger_level lg = Some (levelno INFO)"
  shows "fst (SpeechHandler_listen (WhisperRecognizer_listen e) (lg, w)) = Inr '''' \<and>
         sink (fst (snd (SpeechHandler_listen (WhisperRecognizer_listen e) (lg, w)))) =
           sink lg @ replicate (handlers lg) (INFO, ''Starting to listen...'')
                   @ replicate (handlers lg) (INFO, ''Heard: '') \<and>
         error_lines (sink (fst (snd (SpeechHandler_listen (WhisperRecognizer_listen e) (lg, w))))) =
           error_lines (sink lg)"
proof -
  obtain w1 where run: "WhisperRecognizer_listen e w = (Inr '''', w1)"
    using listen_record_fail [OF record_audio_all_fail [OF assms(1)], of w]
    by (cases "WhisperRecognizer_listen e w") simp
  show ?thesis
    using assms(2)
    by (simp add: handler_listen_Inr [where recognizer_listen = "WhisperRecognizer_listen e" and r = w, OF run]
        logger_log_def isEnabledFor_def error_lines_def)
qed

theorem handler_all_reads_fail_witness:
  "fst (SpeechHandler_listen (WhisperRecognizer_listen failing_env)
          (SpeechHandler_init fresh_logger, WhisperRecognizer_init ''base'' 5)) = Inr '''' \<and>
   sink (fst (snd (SpeechHandler_listen (WhisperRecognizer_listen failing_env)
          (SpeechHandler_init fresh_logger, WhisperRecognizer_init ''base'' 5)))) =
     [(INFO, ''Speech Handler initialized''), (INFO, ''Starting to listen...''), (INFO, ''Heard: '')]"
proof -
  have lvl: "logger_level (SpeechHandler_init fresh_logger) = Some (levelno INFO)"
    by (simp add: SpeechHandler_init_def setup_logging_def logger_log_frame)
  have init: "sink (SpeechHandler_init fresh_logger) = [(INFO, ''Speech Handler initialized'')]"
    "handlers (SpeechHandler_init fresh_logger) = 1"
    by (simp_all add: SpeechHandler_init_def setup_logging_def fresh_logger_def logger_log_def
        isEnabledFor_def)
  from handler_all_reads_fail [OF failing_env_reads lvl, of "WhisperRecognizer_init ''base'' 5"]
  show ?thesis
    by (simp add: init)
qed

section \<open>Normalization\<close>

text \<open>
  C4. Whenever \<^verbatim>\<open>_record_audio\<close> returns a buffer, every sample of it lies in the
  closed interval from -1 to 1; and if every byte the device delivers is zero (every
  16-bit input sample is zero), every sample of the buffer is zero.
\<close>

theorem record_audio_normalized:
  assumes "record_audio e w = (Inr buf, w')"
  shows "(\<forall>x\<in>set buf. - 1 \<le> x \<and> x \<le> 1) \<and>
         ((\<forall>k data. read_outcome e k = Inr data \<longrightarrow> (\<forall>b\<in>set data. b = 0)) \<longrightarrow>
            (\<forall>x\<in>set buf. x = 0))"
proof -
  from record_audio_Inr [OF assms] obtain u :: unit and w1 frames where
    rc: "read_chunks e (num_chunks (RECORD_SECONDS w1)) [] w1 = (frames, w')"
    and buf: "buf = normalize (concat frames)"
    by blast
  have range: "\<forall>x\<in>set buf. - 1 \<le> x \<and> x \<le> 1"
    using buf normalize_range by blast
  have zero: "\<forall>x\<in>set buf. x = 0"
    if z: "\<forall>k data. read_outcome e k = Inr data \<longrightarrow> (\<forall>b\<in>set data. b = 0)"
  proof -
    have "\<forall>k data. read_outcome e k = Inr data \<longrightarrow> length data mod 2 = 0 \<longrightarrow>
            (\<forall>s\<in>set (decode_int16 data). s = 0)"
      using z decode_int16_zero by blast
    from read_chunks_pred [where P = "\<lambda>f. \<forall>s\<in>set f. s = 0", OF rc _ this]
    have "\<forall>f\<in>set frames. \<forall>s\<in>set f. s = 0" by simp
    then have "\<forall>s\<in>set (concat frames). s = 0"
      by auto
    from normalize_zero [OF this] show ?thesis
      by (simp add: buf)
  qed
  from range zero show ?thesis by blast
qed

theorem record_audio_normalized_witness:
  "record_audio loud_env (WhisperRecognizer_init ''base'' (float_literal (1 / 10))) =
     (Inr [32767 / 32768, - 1],
      (WhisperRecognizer_init ''base'' (float_literal (1 / 10)))
        \<lparr>stream := Some 1, open_calls := 1, opened := [1], read_calls := 1\<rparr>) \<and>
   - 1 \<le> (32767 / 32768 :: real) \<and> (32767 / 32768 :: real) \<le> 1"
proof -
  have run: "record_audio loud_env (WhisperRecognizer_init ''base'' (float_literal (1 / 10))) =
     (Inr [32767 / 32768, - 1],
      (WhisperRecognizer_init ''base'' (float_literal (1 / 10)))
        \<lparr>stream := Some 1, open_calls := 1, opened := [1], read_calls := 1\<rparr>)"
    by (simp add: record_audio_def open_stream_def loud_env_def quiet_env_def
        WhisperRecognizer_init_def range_stop_tenth read_chunk_def frombuffer_def
        concatenate_def normalize_def)
  from record_audio_normalized [OF run] have "- 1 \<le> (32767 / 32768 :: real) \<and> (32767 / 32768 :: real) \<le> 1"
    by simp
  with run show ?thesis by blast
qed

section \<open>The length of a recording\<close>

text \<open>
  C5, as stated, fails at both ends of the durations. At a positive duration under one
  chunk, here \<^verbatim>\<open>record_seconds=0.05\<close>, the loop runs zero times and \<^verbatim>\<open>_record_audio\<close>
  raises instead of returning a buffer. At a duration so long that the floating-point
  product \<^verbatim>\<open>RATE / CHUNK * D\<close> is no longer exact to a unit, here the \<^verbatim>\<open>int\<close>
  \<open>2 ^ 51 + 16\<close>, the product 35184372088832250 is rounded to 35184372088832248 and the
  buffer is two chunks short of \<open>RATE * D\<close>. The device delivers full chunks in both.
\<close>

theorem record_audio_count_counterexample:
  "0 < float_literal (1 / 20) \<and>
   fst (record_audio quiet_env (WhisperRecognizer_init ''base'' (float_literal (1 / 20)))) =
     Inl (ValueError ''need at least one array to concatenate'') \<and>
   (\<exists>buf w'. record_audio quiet_env (WhisperRecognizer_init ''base'' 2251799813685264) =
        (Inr buf, w') \<and>
      length buf = 35184372088832248 * CHUNK \<and>
      real RATE * 2251799813685264 - real (length buf) = 2 * real CHUNK)"
proof -
  let ?w1 = "(WhisperRecognizer_init ''base'' (float_literal (1 / 20)))
         \<lparr>open_calls := 1, opened := [1], stream := Some 1\<rparr>"
  have pos: "0 < float_literal (1 / 20)"
    by (simp add: float_literal_twentieth)
  have stop: "range_stop (RECORD_SECONDS ?w1) = Inr 0"
    by (simp add: WhisperRecognizer_init_def range_stop_twentieth)
  then have "num_chunks (RECORD_SECONDS ?w1) = 0"
    by (simp add: num_chunks_def)
  then have "fst (read_chunks quiet_env (num_chunks (RECORD_SECONDS ?w1)) [] ?w1) = []"
    by simp
  from record_audio_no_frames [OF quiet_env_opens stop this]
  have short: "fst (record_audio quiet_env
      (WhisperRecognizer_init ''base'' (float_literal (1 / 20)))) =
      Inl (ValueError ''need at least one array to concatenate'')" .
  let ?w0 = "WhisperRecognizer_init ''base'' 2251799813685264"
  have rs: "range_stop (RECORD_SECONDS ?w0) = Inr 35184372088832248"
    by (simp add: WhisperRecognizer_init_def range_stop_big)
  have opens: "stream ?w0 \<noteq> None \<or> \<not> isl (open_outcome quiet_env (open_calls ?w0))"
    by (simp add: quiet_env_def)
  from record_audio_full [OF rs _ quiet_env_reads opens]
  obtain buf w' where run: "record_audio quiet_env ?w0 = (Inr buf, w')"
    and len: "length buf = nat 35184372088832248 * CHUNK"
    by auto
  from len have len': "length buf = 35184372088832248 * CHUNK"
    by simp
  then have "real RATE * 2251799813685264 - real (length buf) = 2 * real CHUNK"
    by (simp add: RATE_def CHUNK_def)
  with run len' have "\<exists>buf w'. record_audio quiet_env ?w0 = (Inr buf, w') \<and>
      length buf = 35184372088832248 * CHUNK \<and>
      real RATE * 2251799813685264 - real (length buf) = 2 * real CHUNK"
    by blast
  with pos short show ?thesis
    by blast
qed

text \<open>
  C5, amended. For every configured duration D, a float or an \<^verbatim>\<open>int\<close> that a float holds
  exactly, with \<open>1 \<le> RATE / CHUNK * D < 2 ^ 53\<close> in exact arithmetic (at rate 16000 and
  chunk size 1024: D from 0.064 s to about 5.7e14 s), when the stream is open or opens
  and every read yields \<open>CHUNK\<close> samples, \<^verbatim>\<open>_record_audio\<close> returns a buffer of
  \<^verbatim>\<open>int(RATE / CHUNK * D) * CHUNK\<close> samples, the product being the floating-point product
  that the code computes, and this count differs from the exact \<open>RATE * D\<close> by less than
  one chunk (\<open>CHUNK\<close> samples).
\<close>

theorem record_audio_sample_count:
  assumes "is_float (RECORD_SECONDS w)"
    and "1 \<le> real RATE / real CHUNK * RECORD_SECONDS w"
    and "real RATE / real CHUNK * RECORD_SECONDS w < 2 ^ 53"
    and "\<forall>k. \<exists>data. read_outcome e k = Inr data \<and> length data = 2 * CHUNK"
    and "stream w \<noteq> None \<or> \<not> isl (open_outcome e (open_calls w))"
  shows "\<exists>buf w' stop. record_audio e w = (Inr buf, w') \<and>
           range_stop (RECORD_SECONDS w) = Inr stop \<and> 1 \<le> stop \<and>
           length buf = nat stop * CHUNK \<and>
           \<bar>real (length buf) - real RATE * RECORD_SECONDS w\<bar> < real CHUNK"
proof -
  from range_stop_long [OF assms(1,2,3)] obtain stop
    where rs: "range_stop (RECORD_SECONDS w) = Inr stop" and pos: "1 \<le> stop"
      and near: "\<bar>real_of_int stop * real CHUNK - real RATE * RECORD_SECONDS w\<bar> < real CHUNK"
    by blast
  from record_audio_full [OF rs pos assms(4,5)] obtain buf w'
    where run: "record_audio e w = (Inr buf, w')" and len: "length buf = nat stop * CHUNK"
    by blast
  from pos have "real (nat stop) = real_of_int stop"
    by simp
  with len have "real (length buf) = real_of_int stop * real CHUNK"
    by simp
  with near have "\<bar>real (length buf) - real RATE * RECORD_SECONDS w\<bar> < real CHUNK"
    by simp
  with run rs pos len show ?thesis
    by blast
qed

theorem record_audio_sample_count_witness:
  "range_stop 5 = Inr 78 \<and>
   (\<exists>buf w'. record_audio quiet_env (WhisperRecognizer_init ''base'' 5) = (Inr buf, w') \<and>
      length buf = 79872 \<and>
      \<bar>real (length buf) - 80000\<bar> < 1024)"
proof -
  let ?w0 = "WhisperRecognizer_init ''base'' 5"
  have h1: "is_float (RECORD_SECONDS ?w0)"
    by (simp add: WhisperRecognizer_init_def is_float_5)
  have h2: "1 \<le> real RATE / real CHUNK * RECORD_SECONDS ?w0"
    and h3: "real RATE / real CHUNK * RECORD_SECONDS ?w0 < 2 ^ 53"
    by (simp_all add: RATE_def CHUNK_def WhisperRecognizer_init_def)
  have h5: "stream ?w0 \<noteq> None \<or> \<not> isl (open_outcome quiet_env (open_calls ?w0))"
    by (simp add: quiet_env_def)
  have D: "RECORD_SECONDS ?w0 = 5"
    by (simp add: WhisperRecognizer_init_def)
  from record_audio_sample_count [OF h1 h2 h3 quiet_env_reads h5]
  obtain buf w' stop where run: "record_audio quiet_env ?w0 = (Inr buf, w')"
    and rs: "range_stop (RECORD_SECONDS ?w0) = Inr stop"
    and len: "length buf = nat stop * CHUNK"
    and near: "\<bar>real (length buf) - real RATE * RECORD_SECONDS ?w0\<bar> < real CHUNK"
    by blast
  from rs have stop: "stop = 78"
    by (simp add: D range_stop_5)
  from len stop have "length buf = 79872"
    by (simp add: CHUNK_def)
  moreover from near have "\<bar>real (length buf) - 80000\<bar> < 1024"
    by (simp add: D RATE_def CHUNK_def)
  ultimately show ?thesis
    using run range_stop_5 by blast
qed

section \<open>One stream per recognizer\<close>

text \<open>
  C6. After any number of \<^verbatim>\<open>listen\<close> calls on a new recognizer at most one stream has
  been opened. A call that finds no stream opens one (when the device lets it) and keeps
  the handle; a call that finds a stream keeps that handle and does not call
  \<^verbatim>\<open>audio.open\<close> again.
\<close>

theorem at_most_one_stream:
  "length (opened (listen_times e n (WhisperRecognizer_init m D))) \<le> 1 \<and>
   (stream w = None \<longrightarrow> open_outcome e (open_calls w) = Inr h \<longrightarrow>
      stream (snd (WhisperRecognizer_listen e w)) = Some h \<and>
      opened (snd (WhisperRecognizer_listen e w)) = opened w @ [h]) \<and>
   (stream w = Some h \<longrightarrow>
      stream (snd (WhisperRecognizer_listen e w)) = Some h \<and>
      open_calls (snd (WhisperRecognizer_listen e w)) = open_calls w \<and>
      opened (snd (WhisperRecognizer_listen e w)) = opened w)"
proof -
  have "(stream (WhisperRecognizer_init m D) = None \<and> opened (WhisperRecognizer_init m D) = []) \<or>
        (\<exists>h. stream (WhisperRecognizer_init m D) = Some h \<and> opened (WhisperRecognizer_init m D) = [h])"
    by (simp add: WhisperRecognizer_init_def)
  from listen_times_one_stream [OF this, of e n]
  have "length (opened (listen_times e n (WhisperRecognizer_init m D))) \<le> 1"
    by auto
  with listen_stream_None [of w e h] listen_stream_Some [of w h e] show ?thesis
    by blast
qed

theorem at_most_one_stream_witness:
  "stream (snd (WhisperRecognizer_listen quiet_env (WhisperRecognizer_init ''base'' (float_literal (1 / 10))))) = Some 1 \<and>
   opened (snd (WhisperRecognizer_listen quiet_env (WhisperRecognizer_init ''base'' (float_literal (1 / 10))))) = [1] \<and>
   stream (listen_times quiet_env 2 (WhisperRecognizer_init ''base'' (float_literal (1 / 10)))) = Some 1 \<and>
   open_calls (listen_times quiet_env 2 (WhisperRecognizer_init ''base'' (float_literal (1 / 10)))) = 1 \<and>
   opened (listen_times quiet_env 2 (WhisperRecognizer_init ''base'' (float_literal (1 / 10)))) = [1]"
proof -
  let ?w0 = "WhisperRecognizer_init ''base'' (float_literal (1 / 10))"
  let ?w1 = "snd (WhisperRecognizer_listen quiet_env ?w0)"
  have none: "stream ?w0 = None" and out: "open_outcome quiet_env (open_calls ?w0) = Inr 1"
    by (simp_all add: WhisperRecognizer_init_def quiet_env_def)
  from at_most_one_stream [of quiet_env 0 "''base''" "float_literal (1 / 10)" ?w0 1] none out
  have first: "stream ?w1 = Some 1" "opened ?w1 = opened ?w0 @ [1]"
    by simp_all
  from listen_stream_None [OF none out]
  have calls: "open_calls ?w1 = 1"
    by (simp add: WhisperRecognizer_init_def)
  from at_most_one_stream [of quiet_env 0 "''base''" "float_literal (1 / 10)" ?w1 1] first(1)
  have second: "stream (snd (WhisperRecognizer_listen quiet_env ?w1)) = Some 1"
    "open_calls (snd (WhisperRecognizer_listen quiet_env ?w1)) = open_calls ?w1"
    "opened (snd (WhisperRecognizer_listen quiet_env ?w1)) = opened ?w1"
    by simp_all
  have two: "listen_times quiet_env 2 ?w0 = snd (WhisperRecognizer_listen quiet_env ?w1)"
    by (simp add: numeral_2_eq_2)
  from first second calls show ?thesis
    unfolding two by (simp add: WhisperRecognizer_init_def)
qed

section \<open>The end-to-end scenario\<close>

text \<open>
  C7. With \<open>record_seconds = 0.1\<close> (one chunk at rate 16000), a device that yields chunks
  of 1024 zero samples and a model that answers \<^verbatim>\<open>{"text": " hello "}\<close>, \<^verbatim>\<open>listen\<close>
  returns \<open>"hello"\<close>; the model is called once, with the normalized buffer, \<open>fp16\<close>
  off, the language \<open>"en"\<close> and the prompt \<open>"stop listening"\<close>. The handler returns the
  same text.
\<close>

theorem listen_hello:
  "fst (WhisperRecognizer_listen quiet_env (WhisperRecognizer_init ''base'' (float_literal (1 / 10)))) =
     Inr ''hello'' \<and>
   model_calls (snd (WhisperRecognizer_listen quiet_env (WhisperRecognizer_init ''base'' (float_literal (1 / 10))))) =
     [\<lparr> audio = replicate 1024 0, fp16 = False, language = ''en'',
        initial_prompt = ''stop listening'' \<rparr>] \<and>
   fst (SpeechHandler_listen (WhisperRecognizer_listen quiet_env)
          (SpeechHandler_init fresh_logger, WhisperRecognizer_init ''base'' (float_literal (1 / 10)))) =
     Inr ''hello''"
proof -
  let ?w0 = "WhisperRecognizer_init ''base'' (float_literal (1 / 10))"
  have tt: "transcribe_text quiet_env k args = Inr ''hello''" for k args
    by (simp add: transcribe_text_def quiet_env_def strip_def isspace_def)
  have res: "fst (WhisperRecognizer_listen quiet_env ?w0) = Inr ''hello''"
    by (simp add: WhisperRecognizer_listen_def quiet_env_one_chunk tt Let_def)
  have "model_calls (snd (WhisperRecognizer_listen quiet_env ?w0)) =
          model_calls (snd (record_audio quiet_env ?w0)) @ [decoding_args (replicate CHUNK 0)]"
    by (simp add: WhisperRecognizer_listen_def quiet_env_one_chunk tt Let_def)
  moreover have "model_calls (snd (record_audio quiet_env ?w0)) = []"
    using record_audio_frame [of quiet_env ?w0 "fst (record_audio quiet_env ?w0)"
        "snd (record_audio quiet_env ?w0)"]
    by (simp add: WhisperRecognizer_init_def)
  ultimately have calls: "model_calls (snd (WhisperRecognizer_listen quiet_env ?w0)) =
      [\<lparr> audio = replicate 1024 0, fp16 = False, language = ''en'',
         initial_prompt = ''stop listening'' \<rparr>]"
    by (simp add: decoding_args_def CHUNK_def)
  obtain w1 where run: "WhisperRecognizer_listen quiet_env ?w0 = (Inr ''hello'', w1)"
    using res by (cases "WhisperRecognizer_listen quiet_env ?w0") simp
  have "fst (SpeechHandler_listen (WhisperRecognizer_listen quiet_env)
          (SpeechHandler_init fresh_logger, ?w0)) = Inr ''hello''"
    by (simp add: handler_listen_Inr [where recognizer_listen = "WhisperRecognizer_listen quiet_env"
          and r = ?w0, OF run])
  with res calls show ?thesis
    by simp
qed

theorem listen_hello_witness:
  "fst (WhisperRecognizer_listen quiet_env (WhisperRecognizer_init ''base'' (float_literal (1 / 10)))) =
     Inr ''hello''"
  using listen_hello by simp

section \<open>Teardown\<close>

text \<open>
  C8, as stated, fails in two ways, because \<^verbatim>\<open>__del__\<close> has no handler. When
  \<^verbatim>\<open>stop_stream\<close> raises on an open stream, neither \<^verbatim>\<open>close\<close> nor \<^verbatim>\<open>audio.terminate\<close>
  is called. And when \<^verbatim>\<open>__init__\<close> raised in \<^verbatim>\<open>whisper.load_model\<close>, after the audio
  was acquired, the object has no attribute \<open>stream\<close>: \<^verbatim>\<open>__del__\<close> raises on its first
  line and \<^verbatim>\<open>audio.terminate\<close> is not called.
\<close>

theorem del_leaks_counterexample:
  "stream (snd (WhisperRecognizer_listen stop_fails_env
      (WhisperRecognizer_init ''base'' (float_literal (1 / 10))))) = Some 1 \<and>
   teardown_calls (snd (del stop_fails_env (Constructed
      (snd (WhisperRecognizer_listen stop_fails_env
         (WhisperRecognizer_init ''base'' (float_literal (1 / 10)))))))) = [Stop_stream] \<and>
   Terminate \<notin> set (teardown_calls (snd (del stop_fails_env (Constructed
      (snd (WhisperRecognizer_listen stop_fails_env
         (WhisperRecognizer_init ''base'' (float_literal (1 / 10))))))))) \<and>
   WhisperRecognizer_new no_model_env ''base'' 5 =
     (Inl (RuntimeError ''Model not found''), Without_model (WhisperRecognizer_init ''base'' 5)) \<and>
   fst (del no_model_env (Without_model (WhisperRecognizer_init ''base'' 5))) =
     Inl (AttributeError ''WhisperRecognizer object has no attribute stream'') \<and>
   teardown_calls (snd (del no_model_env (Without_model (WhisperRecognizer_init ''base'' 5)))) = []"
proof -
  let ?w0 = "WhisperRecognizer_init ''base'' (float_literal (1 / 10))"
  let ?w1 = "snd (WhisperRecognizer_listen stop_fails_env ?w0)"
  have none: "stream ?w0 = None" and out: "open_outcome stop_fails_env (open_calls ?w0) = Inr 1"
    by (simp_all add: WhisperRecognizer_init_def stop_fails_env_def quiet_env_def)
  from listen_stream_None [OF none out] have st: "stream ?w1 = Some 1"
    by simp
  have td: "teardown_calls ?w1 = []"
    by (simp add: listen_teardown WhisperRecognizer_init_def)
  have stop: "stop_stream_outcome stop_fails_env = Some (OSError ''Stream not open'')"
    by (simp add: stop_fails_env_def)
  have leak: "teardown_calls (snd (del stop_fails_env (Constructed ?w1))) = [Stop_stream]"
    by (simp add: del_def Let_def st td stop)
  have new: "WhisperRecognizer_new no_model_env ''base'' 5 =
      (Inl (RuntimeError ''Model not found''), Without_model (WhisperRecognizer_init ''base'' 5))"
    by (simp add: WhisperRecognizer_new_def no_model_env_def quiet_env_def Let_def)
  have unfinished:
    "fst (del no_model_env (Without_model (WhisperRecognizer_init ''base'' 5))) =
       Inl (AttributeError ''WhisperRecognizer object has no attribute stream'')"
    "teardown_calls (snd (del no_model_env (Without_model (WhisperRecognizer_init ''base'' 5)))) = []"
    by (simp_all add: del_def WhisperRecognizer_init_def)
  from st leak new unfinished show ?thesis
    by simp
qed

text \<open>
  C8, amended. On destruction of a recognizer whose construction completed
  (\<^verbatim>\<open>__init__\<close> returned), and provided that stopping and closing the stream do not
  themselves raise: if a stream is open it is stopped, then closed, and then
  \<^verbatim>\<open>audio.terminate\<close> is called; if none is open \<^verbatim>\<open>audio.terminate\<close> is called. This
  holds in every state of such a recognizer, so also after any number of \<^verbatim>\<open>listen\<close>
  calls in which recording or transcription failed.
\<close>

theorem del_releases:
  assumes "stop_stream_outcome e = None" and "close_outcome e = None"
  shows "teardown_calls (snd (del e (Constructed w))) =
           teardown_calls w @
             (case stream w of
                None \<Rightarrow> [Terminate]
              | Some h \<Rightarrow> [Stop_stream, Close_stream, Terminate]) \<and>
         teardown_calls (snd (del e (Constructed (listen_times e n w)))) =
           teardown_calls w @
             (case stream (listen_times e n w) of
                None \<Rightarrow> [Terminate]
              | Some h \<Rightarrow> [Stop_stream, Close_stream, Terminate]) \<and>
         (fst (WhisperRecognizer_new e model_size record_seconds) = Inr () \<longrightarrow>
            snd (WhisperRecognizer_new e model_size record_seconds) =
              Constructed (WhisperRecognizer_init model_size record_seconds))"
proof -
  note one = del_constructed [OF assms]
  have "snd (WhisperRecognizer_new e model_size record_seconds) =
      Constructed (WhisperRecognizer_init model_size record_seconds)"
    if "fst (WhisperRecognizer_new e model_size record_seconds) = Inr ()"
    using that
    by (cases "pyaudio_outcome e"; cases "load_model_outcome e model_size")
      (simp_all add: WhisperRecognizer_new_def Let_def)
  with one [of w] one [of "listen_times e n w"] show ?thesis
    by (simp add: listen_times_teardown)
qed

theorem del_releases_witness:
  "WhisperRecognizer_new failing_env ''base'' 5 =
     (Inr (), Constructed (WhisperRecognizer_init ''base'' 5)) \<and>
   fst (WhisperRecognizer_listen failing_env (WhisperRecognizer_init ''base'' 5)) = Inr '''' \<and>
   teardown_calls (snd (del failing_env (Constructed
      (listen_times failing_env 1 (WhisperRecognizer_init ''base'' 5))))) =
     [Stop_stream, Close_stream, Terminate]"
proof -
  let ?w0 = "WhisperRecognizer_init ''base'' 5"
  have ok: "stop_stream_outcome failing_env = None" "close_outcome failing_env = None"
    by (simp_all add: failing_env_def quiet_env_def)
  have none: "stream ?w0 = None" and out: "open_outcome failing_env (open_calls ?w0) = Inr 1"
    by (simp_all add: WhisperRecognizer_init_def failing_env_def quiet_env_def)
  from listen_stream_None [OF none out]
  have st: "stream (listen_times failing_env 1 ?w0) = Some 1"
    by simp
  have td: "teardown_calls ?w0 = []"
    by (simp add: WhisperRecognizer_init_def)
  have new: "WhisperRecognizer_new failing_env ''base'' 5 = (Inr (), Constructed ?w0)"
    by (simp add: WhisperRecognizer_new_def failing_env_def quiet_env_def Let_def)
  from del_releases [OF ok, of ?w0 1 "''base''" 5] st td
  have "teardown_calls (snd (del failing_env (Constructed (listen_times failing_env 1 ?w0)))) =
      [Stop_stream, Close_stream, Terminate]"
    by simp
  with new listen_record_fail [OF record_audio_all_fail [OF failing_env_reads], of ?w0]
  show ?thesis
    by simp
qed

section \<open>Durations under one chunk\<close>

text \<open>
  C9, as stated, fails at the upper end of the durations it names: with
  \<^verbatim>\<open>record_seconds=0.064\<close> the product \<^verbatim>\<open>RATE / CHUNK * D\<close> is 1.0, not below 1, so the
  loop runs once, one chunk is read, and \<^verbatim>\<open>listen\<close> returns the transcription, here
  with a device that delivers full chunks and a model that answers
  \<^verbatim>\<open>{"text": " hello "}\<close>.
\<close>

theorem short_duration_boundary_counterexample:
  "0 < float_literal (64 / 1000) \<and>
   range_stop (float_literal (64 / 1000)) = Inr 1 \<and>
   read_calls (snd (record_audio quiet_env
      (WhisperRecognizer_init ''base'' (float_literal (64 / 1000))))) = 1 \<and>
   fst (WhisperRecognizer_listen quiet_env
      (WhisperRecognizer_init ''base'' (float_literal (64 / 1000)))) = Inr ''hello''"
proof -
  have n: "num_chunks (float_literal (64 / 1000)) = Suc 0"
    unfolding num_chunks_def range_stop_064 by simp
  have pos: "0 < float_literal (64 / 1000)"
    unfolding float_literal_064 by simp
  from pos range_stop_064 quiet_env_single_chunk [OF n, of "''base''"]
    quiet_env_single_chunk_listen [OF n, of "''base''"]
  show ?thesis
    by simp
qed

text \<open>
  C9, amended. For every positive duration D, a float, with \<open>RATE / CHUNK * D < 1\<close> in
  exact arithmetic, which at rate 16000 and chunk size 1024 is every D below 0.064 s,
  the floating-point product that the code computes is below 1 as well, the loop of
  \<^verbatim>\<open>_record_audio\<close> runs zero times (no read is made), \<^verbatim>\<open>_record_audio\<close> raises (when
  the stream is open or opens, it is \<^verbatim>\<open>np.concatenate\<close> on the empty list of frames that
  raises), and \<^verbatim>\<open>listen\<close> returns the empty string without invoking the model, whatever
  the device and the model do.
\<close>

theorem short_duration_listen:
  assumes "0 < RECORD_SECONDS w" and "is_float (RECORD_SECONDS w)"
    and "real RATE / real CHUNK * RECORD_SECONDS w < 1"
  shows "RECORD_SECONDS w < 64 / 1000 \<and>
         round_double (round_double (real RATE / real CHUNK) * RECORD_SECONDS w) < 1 \<and>
         range_stop (RECORD_SECONDS w) = Inr 0 \<and>
         num_chunks (RECORD_SECONDS w) = 0 \<and>
         (stream w \<noteq> None \<or> \<not> isl (open_outcome e (open_calls w)) \<longrightarrow>
            read_calls (snd (record_audio e w)) = read_calls w \<and>
            fst (record_audio e w) = Inl (ValueError ''need at least one array to concatenate'')) \<and>
         isl (fst (record_audio e w)) \<and>
         fst (WhisperRecognizer_listen e w) = Inr '''' \<and>
         model_calls (snd (WhisperRecognizer_listen e w)) = model_calls w"
proof -
  from range_stop_short [OF assms]
  have stop: "range_stop (RECORD_SECONDS w) = Inr 0"
    and below: "round_double (round_double (real RATE / real CHUNK) * RECORD_SECONDS w) < 1"
    by simp_all
  from stop have zero: "num_chunks (RECORD_SECONDS w) = 0"
    by (simp add: num_chunks_def)
  have short: "RECORD_SECONDS w < 64 / 1000"
    using short_duration_iff [of "RECORD_SECONDS w"] assms(3) by blast
  have opened_case: "read_calls (snd (record_audio e w)) = read_calls w \<and>
      fst (record_audio e w) = Inl (ValueError ''need at least one array to concatenate'')"
    if "stream w \<noteq> None \<or> \<not> isl (open_outcome e (open_calls w))"
  proof -
    from open_stream_succeeds [OF that] obtain w1 where op: "open_stream e w = (Inr (), w1)"
      by blast
    from open_stream_frame [OF op] have D: "RECORD_SECONDS w1 = RECORD_SECONDS w"
      by simp
    from D zero have "fst (read_chunks e (num_chunks (RECORD_SECONDS w1)) [] w1) = []"
      by simp
    moreover from D stop have "range_stop (RECORD_SECONDS w1) = Inr 0"
      by simp
    ultimately show ?thesis
      using record_audio_no_frames [OF op] record_audio_reads [OF op] zero
      by simp
  qed
  have raises: "isl (fst (record_audio e w))"
  proof (cases "stream w \<noteq> None \<or> \<not> isl (open_outcome e (open_calls w))")
    case True
    from opened_case [OF True] show ?thesis by simp
  next
    case False
    then have none: "stream w = None" and "isl (open_outcome e (open_calls w))"
      by simp_all
    then obtain ex where "open_outcome e (open_calls w) = Inl ex"
      by (cases "open_outcome e (open_calls w)") simp_all
    from open_stream_raises [OF none this] show ?thesis
      by (simp add: record_audio_def)
  qed
  from listen_record_fail [OF raises] stop below zero short opened_case raises show ?thesis
    by blast
qed

theorem short_duration_listen_witness:
  "0 < float_literal (1 / 20) \<and>
   real RATE / real CHUNK * float_literal (1 / 20) < 1 \<and>
   range_stop (float_literal (1 / 20)) = Inr 0 \<and>
   read_calls (snd (record_audio quiet_env
      (WhisperRecognizer_init ''base'' (float_literal (1 / 20))))) = 0 \<and>
   fst (record_audio quiet_env (WhisperRecognizer_init ''base'' (float_literal (1 / 20)))) =
     Inl (ValueError ''need at least one array to concatenate'') \<and>
   fst (WhisperRecognizer_listen quiet_env
      (WhisperRecognizer_init ''base'' (float_literal (1 / 20)))) = Inr '''' \<and>
   model_calls (snd (WhisperRecognizer_listen quiet_env
      (WhisperRecognizer_init ''base'' (float_literal (1 / 20))))) = []"
proof -
  let ?w0 = "WhisperRecognizer_init ''base'' (float_literal (1 / 20))"
  have D: "RECORD_SECONDS ?w0 = float_literal (1 / 20)"
    by (simp add: WhisperRecognizer_init_def)
  have pos: "0 < float_literal (1 / 20)"
    and short: "real RATE / real CHUNK * float_literal (1 / 20) < 1"
    by (simp_all add: float_literal_twentieth RATE_def CHUNK_def)
  have opens: "stream ?w0 \<noteq> None \<or> \<not> isl (open_outcome quiet_env (open_calls ?w0))"
    by (simp add: quiet_env_def)
  have calls: "read_calls ?w0 = 0" "model_calls ?w0 = []"
    by (simp_all add: WhisperRecognizer_init_def)
  from pos short is_float_twentieth
  have h: "0 < RECORD_SECONDS ?w0" "is_float (RECORD_SECONDS ?w0)"
    "real RATE / real CHUNK * RECORD_SECONDS ?w0 < 1"
    by (simp_all only: D)
  note r = short_duration_listen [OF h, of quiet_env]
  from r opens
  have a: "read_calls (snd (record_audio quiet_env ?w0)) = read_calls ?w0"
    "fst (record_audio quiet_env ?w0) =
       Inl (ValueError ''need at least one array to concatenate'')"
    by blast+
  from r
  have b: "range_stop (RECORD_SECONDS ?w0) = Inr 0"
    "fst (WhisperRecognizer_listen quiet_env ?w0) = Inr ''''"
    "model_calls (snd (WhisperRecognizer_listen quiet_env ?w0)) = model_calls ?w0"
    by blast+
  from a b pos short show ?thesis
    unfolding D calls by blast
qed

section \<open>Handlers accumulate on the shared logger\<close>

text \<open>
  C10. Every construction of a \<^verbatim>\<open>SpeechHandler\<close> adds one file handler to the logger
  of the process and removes none, and \<^verbatim>\<open>listen\<close> leaves the handlers as they are; so
  after k constructions in a new process the logger has k handlers, and a call of
  \<^verbatim>\<open>listen\<close> appends each of its two messages k times to the sink: the start message,
  then the result message (the text heard, or the error of a recognizer that raised).
\<close>

theorem handlers_accumulate:
  "handlers (SpeechHandler_init lg) = Suc (handlers lg) \<and>
   handlers (fst (snd (SpeechHandler_listen recognizer_listen (lg, r)))) = handlers lg \<and>
   handlers ((SpeechHandler_init ^^ k) fresh_logger) = k \<and>
   sink (fst (snd (SpeechHandler_listen recognizer_listen
                     ((SpeechHandler_init ^^ k) fresh_logger, r)))) =
     sink ((SpeechHandler_init ^^ k) fresh_logger)
       @ replicate k (INFO, ''Starting to listen...'')
       @ replicate k
           (case fst (recognizer_listen r) of
              Inr text \<Rightarrow> (INFO, ''Heard: '' @ text)
            | Inl ex \<Rightarrow> (ERROR, ''Error while listening: '' @ str_of ex))"
proof -
  have init: "handlers (SpeechHandler_init l) = Suc (handlers l)" for l
    by (simp add: SpeechHandler_init_def setup_logging_def logger_log_frame)
  have keep: "handlers (fst (snd (SpeechHandler_listen recognizer_listen (lg, r)))) = handlers lg"
    by (cases "recognizer_listen r"; cases "fst (recognizer_listen r)")
      (simp_all add: SpeechHandler_listen_def Let_def logger_log_frame)
  have count: "handlers ((SpeechHandler_init ^^ k) fresh_logger) = k"
    by (induction k) (simp_all add: init fresh_logger_def)
  have level: "logger_level ((SpeechHandler_init ^^ k) fresh_logger) =
      (if k = 0 then None else Some (levelno INFO))"
    by (induction k)
      (simp_all add: fresh_logger_def SpeechHandler_init_def setup_logging_def logger_log_frame)
  have emit: "sink (logger_log lvl msg l) = sink l @ replicate (handlers l) (lvl, msg)"
    if "handlers l = 0 \<or> logger_level l = Some (levelno INFO)" for lvl msg l
    using that by (cases lvl) (auto simp: logger_log_def isEnabledFor_def)
  let ?lg = "(SpeechHandler_init ^^ k) fresh_logger"
  let ?lg1 = "logger_log INFO ''Starting to listen...'' ?lg"
  have ok: "handlers ?lg = 0 \<or> logger_level ?lg = Some (levelno INFO)"
    using count level by simp
  then have ok1: "handlers ?lg1 = 0 \<or> logger_level ?lg1 = Some (levelno INFO)"
    by (simp add: logger_log_frame)
  have h1: "handlers ?lg1 = k"
    by (simp add: logger_log_frame count)
  have "sink (fst (snd (SpeechHandler_listen recognizer_listen (?lg, r)))) =
     sink ?lg
       @ replicate k (INFO, ''Starting to listen...'')
       @ replicate k
           (case fst (recognizer_listen r) of
              Inr text \<Rightarrow> (INFO, ''Heard: '' @ text)
            | Inl ex \<Rightarrow> (ERROR, ''Error while listening: '' @ str_of ex))"
    by (cases "recognizer_listen r"; cases "fst (recognizer_listen r)")
      (simp_all add: SpeechHandler_listen_def Let_def emit [OF ok1] emit [OF ok] h1 count)
  with init [of lg] keep count show ?thesis
    by simp
qed

theorem handlers_accumulate_witness:
  "handlers ((SpeechHandler_init ^^ 2) fresh_logger) = 2 \<and>
   sink (fst (snd (SpeechHandler_listen (WhisperRecognizer_listen failing_env)
      ((SpeechHandler_init ^^ 2) fresh_logger, WhisperRecognizer_init ''base'' 5)))) =
     [(INFO, ''Speech Handler initialized''),
      (INFO, ''Speech Handler initialized''), (INFO, ''Speech Handler initialized''),
      (INFO, ''Starting to listen...''), (INFO, ''Starting to listen...''),
      (INFO, ''Heard: ''), (INFO, ''Heard: '')]"
proof -
  have two: "sink ((SpeechHandler_init ^^ 2) fresh_logger) =
      [(INFO, ''Speech Handler initialized''),
       (INFO, ''Speech Handler initialized''), (INFO, ''Speech Handler initialized'')]"
    by (simp add: numeral_2_eq_2 SpeechHandler_init_def setup_logging_def fresh_logger_def
        logger_log_def isEnabledFor_def)
  have res: "fst (WhisperRecognizer_listen failing_env (WhisperRecognizer_init ''base'' 5)) = Inr ''''"
    using listen_record_fail [OF record_audio_all_fail [OF failing_env_reads]] by simp
  have rep: "replicate 2 x = [x, x]" for x :: "level \<times> string"
    by (simp add: numeral_2_eq_2)
  from handlers_accumulate [of fresh_logger "WhisperRecognizer_listen failing_env"
      "WhisperRecognizer_init ''base'' 5" 2]
  show ?thesis
    by (simp add: two res rep)
qed

end
